theory Spec2Isabelle
  imports Complex_Main
begin

section \<open>Numbers, vectors and the grid\<close>

text \<open>
  The game is written in TypeScript. For the position, the clock and the frame loop a
  \<open>number\<close> is modelled as a \<open>real\<close>: the vectors the loop normalises have
  components of the size of \<open>speed * dt\<close>, far from the ends of the range of a double,
  and the theorems about the loop are statements of exact arithmetic. What
  \<open>normalize\<close> does on every vector depends on rounding; for that the two
  \<open>normalize\<close> bodies are embedded once more over IEEE doubles, in the section on
  normalisation on doubles.

  Three versions of the game are embedded. Unsuffixed names follow \<open>src/game.ts\<close>
  (pausable loop, bounds that ignore the radius, \<open>normalize\<close> returning a new vector).
  Names ending in \<open>_part000\<close> follow the first file of \<open>unnamed/part_000\<close>
  (radius-aware bounds, \<open>handleInput\<close>, \<open>updateFPS\<close>); names ending in
  \<open>_part001\<close> follow \<open>unnamed/part_001\<close> (movement flags, \<open>normalize\<close> in place).
\<close>

record Vector2 =
  x :: real
  y :: real

definition GRID_ROWS :: real where
  "GRID_ROWS = 10"

definition GRID_COLS :: real where
  "GRID_COLS = 10"

text \<open>\<open>Vector2.add\<close> mutates its receiver; the model returns the receiver's new value.\<close>

definition add :: "Vector2 \<Rightarrow> Vector2 \<Rightarrow> Vector2" where
  "add this other = this\<lparr>x := x this + x other, y := y this + y other\<rparr>"

text \<open>
  \<open>Vector2.normalize\<close> of \<open>src/game.ts\<close> and of \<open>unnamed/part_000\<close>, in exact
  arithmetic: a new vector is returned and the receiver is left as it was.
\<close>

definition normalize_vec :: "Vector2 \<Rightarrow> Vector2" where
  "normalize_vec this =
     (let length = sqrt (x this * x this + y this * y this)
      in if length > 0
         then \<lparr>x = x this / length, y = y this / length\<rparr>
         else \<lparr>x = 0, y = 0\<rparr>)"

text \<open>
  \<open>Vector2.normalize\<close> of \<open>unnamed/part_001\<close>, in exact arithmetic: the receiver is
  overwritten and returned, so the result below is both the receiver's new value and
  the returned value.
\<close>

definition normalize_part001 :: "Vector2 \<Rightarrow> Vector2" where
  "normalize_part001 this =
     (let length = sqrt (x this * x this + y this * y this)
      in if length > 0
         then this\<lparr>x := x this / length, y := y this / length\<rparr>
         else this)"

text \<open>
  The same two functions with every division observed: \<open>None\<close> stands for a
  division whose divisor is zero (a quotient that has no value in the real-number model).
\<close>

definition divide_checked :: "real \<Rightarrow> real \<Rightarrow> real option" where
  "divide_checked a b = (if b = 0 then None else Some (a / b))"

definition normalize_checked :: "Vector2 \<Rightarrow> Vector2 option" where
  "normalize_checked this =
     (let length = sqrt (x this * x this + y this * y this)
      in if length > 0
         then (case divide_checked (x this) length of
                 None \<Rightarrow> None
               | Some qx \<Rightarrow>
                   (case divide_checked (y this) length of
                      None \<Rightarrow> None
                    | Some qy \<Rightarrow> Some \<lparr>x = qx, y = qy\<rparr>))
         else Some \<lparr>x = 0, y = 0\<rparr>)"

definition normalize_part001_checked :: "Vector2 \<Rightarrow> Vector2 option" where
  "normalize_part001_checked this =
     (let length = sqrt (x this * x this + y this * y this)
      in if length > 0
         then (case divide_checked (x this) length of
                 None \<Rightarrow> None
               | Some qx \<Rightarrow>
                   (case divide_checked (y this) length of
                      None \<Rightarrow> None
                    | Some qy \<Rightarrow> Some (this\<lparr>x := qx, y := qy\<rparr>)))
         else Some this)"

definition magnitude :: "Vector2 \<Rightarrow> real" where
  "magnitude v = sqrt (x v * x v + y v * y v)"

section \<open>Normalisation on doubles\<close>

text \<open>
  Where the claims are about \<open>normalize\<close> on every vector, rounding decides: the
  squares of a small component underflow, those of a large one overflow. The two
  \<open>normalize\<close> bodies are therefore embedded a second time over IEEE 754 binary64,
  the number type of the language. A \<open>double\<close> is a finite value, one of the two
  infinities or NaN; \<open>-0\<close> is identified with \<open>+0\<close> (the two compare equal).
\<close>

datatype double = Finite real | PosInfinity | NegInfinity | NaN

text \<open>
  The smallest positive normal double, the smallest positive double
  (\<open>Number.MIN_VALUE\<close>) and the magnitude from which a rounded result is infinite.
\<close>

definition MIN_NORMAL :: real where
  "MIN_NORMAL = 1 / 2 ^ 1022"

definition MIN_VALUE :: real where
  "MIN_VALUE = 1 / 2 ^ 1074"

definition OVERFLOW :: real where
  "OVERFLOW = 2 ^ 1024"

text \<open>
  Rounding to nearest, ties to even, of a real number to a double: \<open>quantum r\<close> is
  the spacing of the doubles around \<open>r\<close> (\<open>2^(-1074)\<close> below the normal range, otherwise
  \<open>2^(e-52)\<close> for \<open>2^e \<le> |r| < 2^(e+1)\<close>), \<open>r\<close> is rounded to the nearest multiple of it,
  a tie going to the even multiple, and a result of magnitude \<open>2^1024\<close> or more is
  an infinity.
\<close>

definition roundHalfEven :: "real \<Rightarrow> int" where
  "roundHalfEven t =
     (let f = \<lfloor>t\<rfloor>; d = t - of_int f
      in if d < 1 / 2 then f else if d > 1 / 2 then f + 1 else if even f then f else f + 1)"

definition quantum :: "real \<Rightarrow> real" where
  "quantum r =
     (if \<bar>r\<bar> < MIN_NORMAL then MIN_VALUE
      else 2 powr (of_int (\<lfloor>log 2 \<bar>r\<bar>\<rfloor> - 52)))"

definition roundToDouble :: "real \<Rightarrow> double" where
  "roundToDouble r =
     (let v = of_int (roundHalfEven (r / quantum r)) * quantum r
      in if v \<ge> OVERFLOW then PosInfinity
         else if v \<le> - OVERFLOW then NegInfinity
         else Finite v)"

text \<open>
  The arithmetic the two bodies use: \<open>*\<close>, \<open>+\<close>, \<open>Math.sqrt\<close>, \<open>/\<close> and \<open>> 0\<close>. Each
  finite result is the exact result rounded once, as IEEE 754 requires of these
  operations; the cases with an infinity or NaN follow the standard. A zero divisor is
  \<open>+0\<close>.
\<close>

fun mul_double :: "double \<Rightarrow> double \<Rightarrow> double" where
  "mul_double NaN b = NaN"
| "mul_double a NaN = NaN"
| "mul_double (Finite a) (Finite b) = roundToDouble (a * b)"
| "mul_double (Finite a) PosInfinity =
     (if a = 0 then NaN else if a > 0 then PosInfinity else NegInfinity)"
| "mul_double (Finite a) NegInfinity =
     (if a = 0 then NaN else if a > 0 then NegInfinity else PosInfinity)"
| "mul_double PosInfinity (Finite b) =
     (if b = 0 then NaN else if b > 0 then PosInfinity else NegInfinity)"
| "mul_double NegInfinity (Finite b) =
     (if b = 0 then NaN else if b > 0 then NegInfinity else PosInfinity)"
| "mul_double PosInfinity PosInfinity = PosInfinity"
| "mul_double PosInfinity NegInfinity = NegInfinity"
| "mul_double NegInfinity PosInfinity = NegInfinity"
| "mul_double NegInfinity NegInfinity = PosInfinity"

fun add_double :: "double \<Rightarrow> double \<Rightarrow> double" where
  "add_double NaN b = NaN"
| "add_double a NaN = NaN"
| "add_double (Finite a) (Finite b) = roundToDouble (a + b)"
| "add_double PosInfinity NegInfinity = NaN"
| "add_double NegInfinity PosInfinity = NaN"
| "add_double PosInfinity b = PosInfinity"
| "add_double NegInfinity b = NegInfinity"
| "add_double a PosInfinity = PosInfinity"
| "add_double a NegInfinity = NegInfinity"

fun sqrt_double :: "double \<Rightarrow> double" where
  "sqrt_double (Finite a) = (if a < 0 then NaN else roundToDouble (sqrt a))"
| "sqrt_double PosInfinity = PosInfinity"
| "sqrt_double NegInfinity = NaN"
| "sqrt_double NaN = NaN"

fun div_double :: "double \<Rightarrow> double \<Rightarrow> double" where
  "div_double NaN b = NaN"
| "div_double a NaN = NaN"
| "div_double (Finite a) (Finite b) =
     (if b = 0 then (if a = 0 then NaN else if a > 0 then PosInfinity else NegInfinity)
      else roundToDouble (a / b))"
| "div_double (Finite a) b = Finite 0"
| "div_double PosInfinity (Finite b) = (if b \<ge> 0 then PosInfinity else NegInfinity)"
| "div_double NegInfinity (Finite b) = (if b \<ge> 0 then NegInfinity else PosInfinity)"
| "div_double a b = NaN"

fun gt_zero :: "double \<Rightarrow> bool" where
  "gt_zero (Finite a) = (a > 0)"
| "gt_zero PosInfinity = True"
| "gt_zero NegInfinity = False"
| "gt_zero NaN = False"

text \<open>
  \<open>Vector2\<close> with double components, the length as both bodies compute it, and the
  two bodies: \<open>normalize_double\<close> is \<open>normalize\<close> of \<open>src/game.ts\<close> and
  \<open>unnamed/part_000\<close>, \<open>normalize_part001_double\<close> the one of \<open>unnamed/part_001\<close>.
\<close>

record Vector2_double =
  x_double :: double
  y_double :: double

definition length_double :: "Vector2_double \<Rightarrow> double" where
  "length_double this =
     sqrt_double (add_double (mul_double (x_double this) (x_double this))
                             (mul_double (y_double this) (y_double this)))"

definition normalize_double :: "Vector2_double \<Rightarrow> Vector2_double" where
  "normalize_double this =
     (let length = length_double this
      in if gt_zero length
         then \<lparr>x_double = div_double (x_double this) length,
               y_double = div_double (y_double this) length\<rparr>
         else \<lparr>x_double = Finite 0, y_double = Finite 0\<rparr>)"

definition normalize_part001_double :: "Vector2_double \<Rightarrow> Vector2_double" where
  "normalize_part001_double this =
     (let length = length_double this
      in if gt_zero length
         then this\<lparr>x_double := div_double (x_double this) length,
                   y_double := div_double (y_double this) length\<rparr>
         else this)"

section \<open>The player\<close>

record Player =
  position :: Vector2
  radius :: real
  color :: string
  speed :: real

text \<open>\<open>Player.move\<close> of \<open>src/game.ts\<close>: the bounds are \<open>0\<close> and the grid size.\<close>

definition move :: "Player \<Rightarrow> Vector2 \<Rightarrow> Player" where
  "move this direction =
     (let normalizedDirection = normalize_vec direction;
          deltaX = x normalizedDirection * speed this;
          deltaY = y normalizedDirection * speed this;
          newX = x (position this) + deltaX;
          newY = y (position this) + deltaY;
          p1 = (if newX \<ge> 0 \<and> newX \<le> GRID_COLS
                then this\<lparr>position := (position this)\<lparr>x := newX\<rparr>\<rparr> else this);
          p2 = (if newY \<ge> 0 \<and> newY \<le> GRID_ROWS
                then p1\<lparr>position := (position p1)\<lparr>y := newY\<rparr>\<rparr> else p1)
      in p2)"

text \<open>
  \<open>Player.move\<close> of \<open>unnamed/part_000\<close>: the bounds take the radius into account.
  That file imports \<open>GRID_COLS\<close> and \<open>GRID_ROWS\<close> from a \<open>config.js\<close> that is not
  part of the sources, so the two constants are parameters here.
\<close>

definition move_part000 :: "real \<Rightarrow> real \<Rightarrow> Player \<Rightarrow> Vector2 \<Rightarrow> Player" where
  "move_part000 cols rows this direction =
     (let normalizedDirection = normalize_vec direction;
          deltaX = x normalizedDirection * speed this;
          deltaY = y normalizedDirection * speed this;
          newX = x (position this) + deltaX;
          newY = y (position this) + deltaY;
          p1 = (if newX - radius this \<ge> 0 \<and> newX + radius this \<le> cols
                then this\<lparr>position := (position this)\<lparr>x := newX\<rparr>\<rparr> else this);
          p2 = (if newY - radius this \<ge> 0 \<and> newY + radius this \<le> rows
                then p1\<lparr>position := (position p1)\<lparr>y := newY\<rparr>\<rparr> else p1)
      in p2)"

text \<open>
  \<open>Player.move\<close> of \<open>unnamed/part_001\<close>: \<open>direction.normalize()\<close> overwrites the
  caller's vector, so the vector's new value is returned beside the player.
\<close>

definition move_part001 :: "Player \<Rightarrow> Vector2 \<Rightarrow> Player \<times> Vector2" where
  "move_part001 this direction =
     (let normalizedDirection = normalize_part001 direction;
          deltaX = x normalizedDirection * speed this;
          deltaY = y normalizedDirection * speed this;
          newX = x (position this) + deltaX;
          newY = y (position this) + deltaY;
          p1 = (if newX \<ge> 0 \<and> newX \<le> GRID_COLS
                then this\<lparr>position := (position this)\<lparr>x := newX\<rparr>\<rparr> else this);
          p2 = (if newY \<ge> 0 \<and> newY \<le> GRID_ROWS
                then p1\<lparr>position := (position p1)\<lparr>y := newY\<rparr>\<rparr> else p1)
      in (p2, normalizedDirection))"

text \<open>The player every version creates at start-up.\<close>

definition initPlayer :: Player where
  "initPlayer =
     \<lparr>position = \<lparr>x = 0.5, y = 0.5\<rparr>, radius = 0.2, color = ''lightgreen'', speed = 0.05\<rparr>"

text \<open>The same player placed elsewhere on the grid.\<close>

definition playerAt :: "real \<Rightarrow> real \<Rightarrow> Player" where
  "playerAt a b = initPlayer\<lparr>position := \<lparr>x = a, y = b\<rparr>\<rparr>"






section \<open>Input\<close>

text \<open>
  \<open>String.prototype.toLowerCase\<close> on the ASCII letters, which is all the key names of
  the game need: \<open>A\<close> to \<open>Z\<close> (codes 65 to 90) get bit 5 set, every other character
  is kept.
\<close>

definition toLowerCase_char :: "char \<Rightarrow> char" where
  "toLowerCase_char c =
     (let n = (of_char c :: nat) in
      if 65 \<le> n \<and> n \<le> 90
      then (case c of Char b0 b1 b2 b3 b4 b5 b6 b7 \<Rightarrow> Char b0 b1 b2 b3 b4 True b6 b7)
      else c)"

definition toLowerCase :: "string \<Rightarrow> string" where
  "toLowerCase s = map toLowerCase_char s"

datatype InputManagerTypes = keyboard | mouse

record InputManager =
  inputType :: InputManagerTypes
  keys :: "string set"
  mouseButtons :: "int set"
  mousePosition :: Vector2

text \<open>The constructor: nothing is held, the pointer is at the origin.\<close>

definition newInputManager :: "InputManagerTypes \<Rightarrow> InputManager" where
  "newInputManager t =
     \<lparr>inputType = t, keys = {}, mouseButtons = {}, mousePosition = \<lparr>x = 0, y = 0\<rparr>\<rparr>"

text \<open>The listeners; the argument is \<open>event.key\<close>.\<close>

definition onKeyDown :: "InputManager \<Rightarrow> string \<Rightarrow> InputManager" where
  "onKeyDown this key =
     (if inputType this = keyboard then this\<lparr>keys := insert (toLowerCase key) (keys this)\<rparr>
      else this)"

definition onKeyUp :: "InputManager \<Rightarrow> string \<Rightarrow> InputManager" where
  "onKeyUp this key =
     (if inputType this = keyboard then this\<lparr>keys := keys this - {toLowerCase key}\<rparr>
      else this)"

definition isKeyPressed :: "InputManager \<Rightarrow> string \<Rightarrow> bool" where
  "isKeyPressed this key = (toLowerCase key \<in> keys this)"

text \<open>
  The accumulation of the movement vector in \<open>gameLoop\<close> of \<open>src/game.ts\<close>
  (lines 290 to 294): one \<open>add\<close> per held key, in the order w, s, a, d.
\<close>

definition accumulateMovement :: "Player \<Rightarrow> InputManager \<Rightarrow> real \<Rightarrow> Vector2" where
  "accumulateMovement player1 inputManager dt =
     (let m0 = \<lparr>x = 0, y = 0\<rparr>;
          m1 = (if isKeyPressed inputManager ''w''
                then add m0 \<lparr>x = 0, y = - speed player1 * dt\<rparr> else m0);
          m2 = (if isKeyPressed inputManager ''s''
                then add m1 \<lparr>x = 0, y = speed player1 * dt\<rparr> else m1);
          m3 = (if isKeyPressed inputManager ''a''
                then add m2 \<lparr>x = - speed player1 * dt, y = 0\<rparr> else m2);
          m4 = (if isKeyPressed inputManager ''d''
                then add m3 \<lparr>x = speed player1 * dt, y = 0\<rparr> else m3)
      in m4)"

text \<open>
  The same accumulation in \<open>handleInput\<close> of \<open>unnamed/part_000\<close> (lines 382 to 386),
  where the arrow keys count as well.
\<close>

definition accumulateMovement_part000 :: "Player \<Rightarrow> InputManager \<Rightarrow> real \<Rightarrow> Vector2" where
  "accumulateMovement_part000 player inputManager dt =
     (let m0 = \<lparr>x = 0, y = 0\<rparr>;
          m1 = (if isKeyPressed inputManager ''w'' \<or> isKeyPressed inputManager ''arrowup''
                then add m0 \<lparr>x = 0, y = - speed player * dt\<rparr> else m0);
          m2 = (if isKeyPressed inputManager ''s'' \<or> isKeyPressed inputManager ''arrowdown''
                then add m1 \<lparr>x = 0, y = speed player * dt\<rparr> else m1);
          m3 = (if isKeyPressed inputManager ''a'' \<or> isKeyPressed inputManager ''arrowleft''
                then add m2 \<lparr>x = - speed player * dt, y = 0\<rparr> else m2);
          m4 = (if isKeyPressed inputManager ''d'' \<or> isKeyPressed inputManager ''arrowright''
                then add m3 \<lparr>x = speed player * dt, y = 0\<rparr> else m3)
      in m4)"

definition handleInput :: "Player \<Rightarrow> InputManager \<Rightarrow> real \<Rightarrow> Vector2" where
  "handleInput player inputManager dt =
     (let movement = accumulateMovement_part000 player inputManager dt
      in if x movement \<noteq> 0 \<or> y movement \<noteq> 0 then normalize_vec movement
         else \<lparr>x = 0, y = 0\<rparr>)"

text \<open>
  The accumulation in \<open>gameLoop\<close> of \<open>unnamed/part_001\<close> (lines 270 to 276), from the
  four module-level flags, followed by the in-place \<open>normalize\<close> of a non-zero sum.
\<close>

record MoveFlags =
  moveUp :: bool
  moveDown :: bool
  moveLeft :: bool
  moveRight :: bool

definition accumulateMovement_part001 :: "Player \<Rightarrow> MoveFlags \<Rightarrow> real \<Rightarrow> Vector2" where
  "accumulateMovement_part001 player1 flags dt =
     (let m0 = \<lparr>x = 0, y = 0\<rparr>;
          m1 = (if moveUp flags then add m0 \<lparr>x = 0, y = - speed player1 * dt\<rparr> else m0);
          m2 = (if moveDown flags then add m1 \<lparr>x = 0, y = speed player1 * dt\<rparr> else m1);
          m3 = (if moveLeft flags then add m2 \<lparr>x = - speed player1 * dt, y = 0\<rparr> else m2);
          m4 = (if moveRight flags then add m3 \<lparr>x = speed player1 * dt, y = 0\<rparr> else m3)
      in m4)"

definition movement_part001 :: "Player \<Rightarrow> MoveFlags \<Rightarrow> real \<Rightarrow> Vector2" where
  "movement_part001 player1 flags dt =
     (let movement = accumulateMovement_part001 player1 flags dt
      in if x movement \<noteq> 0 \<or> y movement \<noteq> 0 then normalize_part001 movement
         else movement)"

section \<open>The frame loop\<close>

text \<open>
  What a tick does to the outside world, in the order in which it does it: console
  lines, the FPS text drawn on the UI layer, the redraw of the object layer with the
  player it draws, and the request for the next tick (directly, or from a timer with
  the given delay in \<open>unnamed/part_001\<close>).
\<close>

datatype Effect =
    ConsoleLog_Paused bool
  | DrawFPS nat
  | ConsoleLog_FPS nat
  | ConsoleLog_Movement Vector2
  | UpdateLayer Player
  | RequestAnimationFrame
  | SetTimeout_RequestAnimationFrame real

text \<open>
  The FPS block of \<open>src/game.ts\<close> (lines 282 to 288) and of \<open>unnamed/part_001\<close>
  (lines 261 to 267): the sample when more than a second has passed, then
  \<open>frameCount++\<close> on every tick. The result is the new \<open>lastFPS\<close> and
  \<open>frameCount\<close>.
\<close>

definition fpsSample :: "real \<Rightarrow> real \<Rightarrow> nat \<Rightarrow> (real \<times> nat) \<times> Effect list" where
  "fpsSample currentTime lastFPS frameCount =
     (let (sampled, effects) =
            (if currentTime > lastFPS + 1000
             then ((currentTime, 0), [DrawFPS frameCount, ConsoleLog_FPS frameCount])
             else ((lastFPS, frameCount), []))
      in ((fst sampled, snd sampled + 1), effects))"

text \<open>
  \<open>updateFPS\<close> of \<open>unnamed/part_000\<close> reads \<open>performance.now()\<close> twice, once for the
  comparison and once for the new \<open>lastFPS\<close>; the two readings are \<open>now1\<close> and
  \<open>now2\<close>. The increment is in the caller.
\<close>

definition updateFPS :: "real \<Rightarrow> real \<Rightarrow> real \<Rightarrow> nat \<Rightarrow> (real \<times> nat) \<times> Effect list" where
  "updateFPS now1 now2 lastFPS frameCount =
     (if now1 > lastFPS + 1000
      then ((now2, 0), [DrawFPS frameCount, ConsoleLog_FPS frameCount])
      else ((lastFPS, frameCount), []))"

text \<open>
  The variables the loop closes over. \<open>LoopState\<close> holds what all versions share;
  \<open>unnamed/part_000\<close> adds the input manager, \<open>src/game.ts\<close> adds the two pause
  variables to that, and \<open>unnamed/part_001\<close> adds the movement flags instead.
\<close>

record LoopState =
  GAMERUN :: bool
  player1 :: Player
  lastTime :: real
  lastFPS :: real
  frameCount :: nat

record Game_part000 = LoopState +
  inputManager :: InputManager

record Game = Game_part000 +
  paused :: bool
  lastPausePressed :: bool

record Game_part001 = LoopState +
  flags :: MoveFlags

text \<open>
  The state in which the first \<open>gameLoop\<close> call finds each version: the two clock
  variables hold the start time \<open>t0\<close> (two readings of the clock taken back to back,
  here the same), nothing is held, and \<open>GAMERUN\<close> has just been set.
\<close>

definition initGame :: "real \<Rightarrow> Game" where
  "initGame t0 =
     \<lparr>GAMERUN = True, player1 = initPlayer, lastTime = t0, lastFPS = t0, frameCount = 0,
      inputManager = newInputManager keyboard, paused = False, lastPausePressed = False\<rparr>"

definition initGame_part000 :: "real \<Rightarrow> Game_part000" where
  "initGame_part000 t0 =
     \<lparr>GAMERUN = True, player1 = initPlayer, lastTime = t0, lastFPS = t0, frameCount = 0,
      inputManager = newInputManager keyboard\<rparr>"

definition initGame_part001 :: "real \<Rightarrow> Game_part001" where
  "initGame_part001 t0 =
     \<lparr>GAMERUN = True, player1 = initPlayer, lastTime = t0, lastFPS = t0, frameCount = 0,
      flags = \<lparr>moveUp = False, moveDown = False, moveLeft = False, moveRight = False\<rparr>\<rparr>"

text \<open>
  A key event delivered to the input manager between two ticks, in the versions that
  have one.
\<close>

definition keydown :: "'a Game_part000_scheme \<Rightarrow> string \<Rightarrow> 'a Game_part000_scheme" where
  "keydown g key = g\<lparr>inputManager := onKeyDown (inputManager g) key\<rparr>"

definition keyup :: "'a Game_part000_scheme \<Rightarrow> string \<Rightarrow> 'a Game_part000_scheme" where
  "keyup g key = g\<lparr>inputManager := onKeyUp (inputManager g) key\<rparr>"

text \<open>
  The pause check of \<open>src/game.ts\<close> (lines 267 to 272). \<open>lastPausePressed\<close> is read
  here; no statement of the file assigns it after its declaration.
\<close>

definition pauseCheck :: "Game \<Rightarrow> Game \<times> Effect list" where
  "pauseCheck g =
     (let pausePressed = isKeyPressed (inputManager g) ''Escape''
      in if pausePressed \<and> \<not> lastPausePressed g
         then (g\<lparr>paused := \<not> paused g\<rparr>, [ConsoleLog_Paused (\<not> paused g)])
         else (g, []))"

text \<open>
  \<open>gameLoop\<close> of \<open>src/game.ts\<close>. The call \<open>movement.normalize()\<close> of line 296
  builds a new vector that is dropped, so \<open>movement\<close> reaches \<open>move\<close> and the console
  as accumulated.
\<close>

definition gameLoop :: "Game \<Rightarrow> real \<Rightarrow> Game \<times> Effect list" where
  "gameLoop g currentTime =
     (if \<not> GAMERUN g then (g, [])
      else
        let (g1, e1) = pauseCheck g
        in if paused g1 then (g1, e1 @ [RequestAnimationFrame])
           else
             let dt = (currentTime - lastTime g1) / 1000;
                 g2 = g1\<lparr>lastTime := currentTime\<rparr>;
                 (clock, e2) = fpsSample currentTime (lastFPS g2) (frameCount g2);
                 g3 = g2\<lparr>lastFPS := fst clock, frameCount := snd clock\<rparr>;
                 movement = accumulateMovement (player1 g3) (inputManager g3) dt;
                 g4 = g3\<lparr>player1 := move (player1 g3) movement\<rparr>
             in (g4, e1 @ e2 @
                   [ConsoleLog_Movement movement, UpdateLayer (player1 g4),
                    RequestAnimationFrame]))"

text \<open>\<open>gameLoop\<close> of \<open>unnamed/part_000\<close>; \<open>frameCount++\<close> follows \<open>updateFPS\<close>.\<close>

definition gameLoop_part000 ::
  "real \<Rightarrow> real \<Rightarrow> Game_part000 \<Rightarrow> real \<Rightarrow> real \<Rightarrow> real \<Rightarrow> Game_part000 \<times> Effect list" where
  "gameLoop_part000 cols rows g currentTime now1 now2 =
     (if \<not> GAMERUN g then (g, [])
      else
        let dt = (currentTime - lastTime g) / 1000;
            g1 = g\<lparr>lastTime := currentTime\<rparr>;
            (clock, e1) = updateFPS now1 now2 (lastFPS g1) (frameCount g1);
            g2 = g1\<lparr>lastFPS := fst clock, frameCount := snd clock + 1\<rparr>;
            movement = handleInput (player1 g2) (inputManager g2) dt;
            g3 = g2\<lparr>player1 := move_part000 cols rows (player1 g2) movement\<rparr>
        in (g3, e1 @ [UpdateLayer (player1 g3), RequestAnimationFrame]))"

text \<open>
  \<open>gameLoop\<close> of \<open>unnamed/part_001\<close>, with \<open>frameDuration = 1000 / FPS\<close> and
  \<open>FPS = 60\<close>.
\<close>

definition frameDuration :: real where
  "frameDuration = 1000 / 60"

definition gameLoop_part001 :: "Game_part001 \<Rightarrow> real \<Rightarrow> Game_part001 \<times> Effect list" where
  "gameLoop_part001 g currentTime =
     (if \<not> GAMERUN g then (g, [])
      else
        let dt = (currentTime - lastTime g) / 1000;
            g1 = g\<lparr>lastTime := currentTime\<rparr>;
            (clock, e1) = fpsSample currentTime (lastFPS g1) (frameCount g1);
            g2 = g1\<lparr>lastFPS := fst clock, frameCount := snd clock\<rparr>;
            movement = movement_part001 (player1 g2) (flags g2) dt;
            (moved, movement') = move_part001 (player1 g2) movement;
            g3 = g2\<lparr>player1 := moved\<rparr>
        in (g3, e1 @
              [ConsoleLog_Movement movement', UpdateLayer (player1 g3),
               (if dt > frameDuration then RequestAnimationFrame
                else SetTimeout_RequestAnimationFrame (frameDuration - dt))]))"

text \<open>
  A run of ticks with the input left as it is: the state after the last tick and
  everything the ticks did, in order.
\<close>

fun ticks :: "Game \<Rightarrow> real list \<Rightarrow> Game \<times> Effect list" where
  "ticks g [] = (g, [])"
| "ticks g (t # ts) =
     (let (g1, e1) = gameLoop g t; (g2, e2) = ticks g1 ts in (g2, e1 @ e2))"

fun ticks_part000 ::
  "real \<Rightarrow> real \<Rightarrow> Game_part000 \<Rightarrow> (real \<times> real \<times> real) list \<Rightarrow> Game_part000 \<times> Effect list" where
  "ticks_part000 cols rows g [] = (g, [])"
| "ticks_part000 cols rows g ((t, now1, now2) # ts) =
     (let (g1, e1) = gameLoop_part000 cols rows g t now1 now2;
          (g2, e2) = ticks_part000 cols rows g1 ts
      in (g2, e1 @ e2))"

text \<open>The frame counts a list of effects shows on the UI layer, and its pause lines.\<close>

fun fpsShown :: "Effect list \<Rightarrow> nat list" where
  "fpsShown [] = []"
| "fpsShown (DrawFPS n # es) = n # fpsShown es"
| "fpsShown (e # es) = fpsShown es"

fun pauseLines :: "Effect list \<Rightarrow> bool list" where
  "pauseLines [] = []"
| "pauseLines (ConsoleLog_Paused b # es) = b # pauseLines es"
| "pauseLines (e # es) = pauseLines es"

fun redraws :: "Effect list \<Rightarrow> Player list" where
  "redraws [] = []"
| "redraws (UpdateLayer p # es) = p # redraws es"
| "redraws (e # es) = redraws es"

section \<open>Normalisation\<close>

lemma magnitude_pos_iff: "0 < magnitude v \<longleftrightarrow> x v \<noteq> 0 \<or> y v \<noteq> 0"
  by (simp add: magnitude_def sum_squares_gt_zero_iff)

lemma normalize_part001_eq: "normalize_part001 v = normalize_vec v"
  by (cases v)
    (auto simp: normalize_vec_def normalize_part001_def Let_def sum_squares_gt_zero_iff not_less)

lemma normalize_checked_eq: "normalize_checked v = Some (normalize_vec v)"
  by (simp add: normalize_checked_def normalize_vec_def divide_checked_def Let_def)

lemma normalize_part001_checked_eq: "normalize_part001_checked v = Some (normalize_part001 v)"
  by (simp add: normalize_part001_checked_def normalize_part001_def divide_checked_def Let_def)

lemma normalize_vec_zero: "normalize_vec \<lparr>x = 0, y = 0\<rparr> = \<lparr>x = 0, y = 0\<rparr>"
  by (simp add: normalize_vec_def)

lemma normalize_vec_nonzero:
  assumes "x v \<noteq> 0 \<or> y v \<noteq> 0"
  shows "normalize_vec v = \<lparr>x = x v / magnitude v, y = y v / magnitude v\<rparr>"
  using assms by (simp add: normalize_vec_def magnitude_def Let_def sum_squares_gt_zero_iff)

lemma magnitude_normalize:
  assumes "x v \<noteq> 0 \<or> y v \<noteq> 0"
  shows "magnitude (normalize_vec v) = 1"
proof -
  let ?l = "magnitude v"
  have pos: "0 < ?l" using assms by (simp add: magnitude_pos_iff)
  have sq: "?l * ?l = x v * x v + y v * y v"
    by (simp add: magnitude_def)
  have "x v / ?l * (x v / ?l) + y v / ?l * (y v / ?l) = (x v * x v + y v * y v) / (?l * ?l)"
    by (simp add: add_divide_distrib)
  also have "\<dots> = 1" unfolding sq[symmetric] using pos by simp
  finally have "sqrt (x v / ?l * (x v / ?l) + y v / ?l * (y v / ?l)) = 1" by simp
  then show ?thesis
    using assms by (simp add: normalize_vec_nonzero) (simp add: magnitude_def)
qed

lemma normalize_vec_idem: "normalize_vec (normalize_vec v) = normalize_vec v"
proof (cases "x v \<noteq> 0 \<or> y v \<noteq> 0")
  case True
  then have m: "magnitude (normalize_vec v) = 1" by (rule magnitude_normalize)
  then have "x (normalize_vec v) \<noteq> 0 \<or> y (normalize_vec v) \<noteq> 0"
    using magnitude_pos_iff[of "normalize_vec v"] by simp
  then show ?thesis using m by (simp add: normalize_vec_nonzero[of "normalize_vec v"])
next
  case False
  then show ?thesis by (simp add: normalize_vec_def)
qed

text \<open>
  Claim C5. \<open>normalize\<close> never divides by zero and is total: with every division
  observed, both versions return a value for every vector, the value of the plain
  function. On the zero vector that value is \<open>(0,0)\<close>.
\<close>

theorem normalize_zero_guarded:
  "normalize_checked v = Some (normalize_vec v) \<and>
   normalize_part001_checked v = Some (normalize_part001 v) \<and>
   normalize_vec \<lparr>x = 0, y = 0\<rparr> = \<lparr>x = 0, y = 0\<rparr> \<and>
   normalize_part001 \<lparr>x = 0, y = 0\<rparr> = \<lparr>x = 0, y = 0\<rparr>"
  by (simp add: normalize_checked_eq normalize_part001_checked_eq normalize_part001_eq
      normalize_vec_zero)

section \<open>Normalisation and rounding\<close>

lemma round_zero: "roundToDouble 0 = Finite 0"
  by (simp add: roundToDouble_def roundHalfEven_def OVERFLOW_def)

lemma round_tiny:
  assumes "\<bar>t\<bar> < MIN_VALUE / 2"
  shows "roundToDouble t = Finite 0"
proof -
  have mv: "0 < MIN_VALUE" "MIN_VALUE < MIN_NORMAL" "0 < OVERFLOW"
    by (simp_all add: MIN_VALUE_def MIN_NORMAL_def OVERFLOW_def)
  have q: "quantum t = MIN_VALUE" using assms mv by (simp add: quantum_def)
  define z where "z = t / MIN_VALUE"
  have "\<bar>t\<bar> / MIN_VALUE < (MIN_VALUE / 2) / MIN_VALUE"
    using assms mv(1) by (rule divide_strict_right_mono)
  then have "\<bar>z\<bar> < 1 / 2" using mv(1) by (simp add: z_def)
  then have h: "z < 1 / 2" "- (1 / 2) < z" by linarith+
  have "roundHalfEven z = 0"
  proof (cases "0 \<le> z")
    case True
    with h have "\<lfloor>z\<rfloor> = 0" by (simp add: floor_eq_iff)
    with h True show ?thesis by (simp add: roundHalfEven_def)
  next
    case False
    with h have "\<lfloor>z\<rfloor> = - 1" by (simp add: floor_eq_iff)
    with h False show ?thesis by (simp add: roundHalfEven_def)
  qed
  then show ?thesis using mv by (simp add: roundToDouble_def q z_def)
qed

lemma quantum_pos: "0 < quantum r"
  by (simp add: quantum_def MIN_VALUE_def)

lemma quantum_normal:
  assumes "MIN_NORMAL \<le> \<bar>r\<bar>"
  shows "quantum r \<le> \<bar>r\<bar> / 2 ^ 52"
proof -
  have "0 < MIN_NORMAL" by (simp add: MIN_NORMAL_def)
  then have r: "0 < \<bar>r\<bar>" using assms by linarith
  have "of_int \<lfloor>log 2 \<bar>r\<bar>\<rfloor> \<le> log 2 \<bar>r\<bar>" by simp
  then have "2 powr (of_int \<lfloor>log 2 \<bar>r\<bar>\<rfloor>) \<le> \<bar>r\<bar>"
    using r by (simp add: powr_le_iff)
  moreover have "2 powr (of_int (\<lfloor>log 2 \<bar>r\<bar>\<rfloor> - 52)) =
      2 powr (of_int \<lfloor>log 2 \<bar>r\<bar>\<rfloor>) / (2 ^ 52 :: real)"
  proof -
    have "(2::real) powr (of_int (\<lfloor>log 2 \<bar>r\<bar>\<rfloor> - 52)) =
        2 powr (of_int \<lfloor>log 2 \<bar>r\<bar>\<rfloor> - real 52)" by simp
    also have "\<dots> = 2 powr (of_int \<lfloor>log 2 \<bar>r\<bar>\<rfloor>) / 2 powr (real 52)"
      by (rule powr_diff)
    also have "(2::real) powr (real 52) = 2 ^ 52" by (rule powr_realpow) simp
    finally show ?thesis .
  qed
  moreover have "quantum r = 2 powr (of_int (\<lfloor>log 2 \<bar>r\<bar>\<rfloor> - 52))"
    using assms by (simp only: quantum_def not_less[symmetric] if_False)
  ultimately show ?thesis by (simp only: divide_right_mono zero_le_power zero_le_numeral)
qed

lemma roundHalfEven_err: "\<bar>of_int (roundHalfEven t) - t\<bar> \<le> 1 / 2"
  unfolding roundHalfEven_def Let_def by (auto; linarith)

lemma round_within_half_quantum:
  assumes "\<bar>r\<bar> + quantum r / 2 < OVERFLOW"
  shows "\<exists>v. roundToDouble r = Finite v \<and> \<bar>v - r\<bar> \<le> quantum r / 2"
proof -
  define q where "q = quantum r"
  define v where "v = of_int (roundHalfEven (r / q)) * q"
  have q: "0 < q" by (simp add: q_def quantum_pos)
  have "\<bar>of_int (roundHalfEven (r / q)) - r / q\<bar> * q \<le> 1 / 2 * q"
    using roundHalfEven_err[of "r / q"] q by (intro mult_right_mono) simp_all
  moreover have "\<bar>of_int (roundHalfEven (r / q)) - r / q\<bar> * q = \<bar>v - r\<bar>"
  proof -
    have "v - r = (of_int (roundHalfEven (r / q)) - r / q) * q"
      using q by (simp add: v_def algebra_simps)
    then show ?thesis using q by (simp add: abs_mult)
  qed
  ultimately have e: "\<bar>v - r\<bar> \<le> q / 2" by simp
  have "\<bar>r\<bar> + q / 2 < OVERFLOW" using assms by (simp only: q_def)
  with e have "\<bar>v\<bar> < OVERFLOW" by linarith
  then have "\<not> OVERFLOW \<le> v" "\<not> v \<le> - OVERFLOW" by linarith+
  then have "roundToDouble r = Finite v"
    by (simp add: roundToDouble_def v_def q_def Let_def)
  then show ?thesis using e by (auto simp: q_def)
qed

lemma round_relative:
  assumes "MIN_NORMAL \<le> \<bar>r\<bar>" and "\<bar>r\<bar> \<le> 2 ^ 1023"
  shows "\<exists>v. roundToDouble r = Finite v \<and> \<bar>v - r\<bar> \<le> \<bar>r\<bar> / 2 ^ 53"
proof -
  have q: "quantum r / 2 \<le> \<bar>r\<bar> / 2 ^ 53"
    using quantum_normal[OF assms(1)] by simp
  have "\<bar>r\<bar> / 2 ^ 53 \<le> 2 ^ 1023 / (2 ^ 53 :: real)"
    using assms(2) by (intro divide_right_mono) simp_all
  moreover have "(2 ^ 1023 + 2 ^ 1023 / 2 ^ 53 :: real) < OVERFLOW"
    by (simp add: OVERFLOW_def)
  ultimately have "\<bar>r\<bar> + quantum r / 2 < OVERFLOW" using q assms(2) by linarith
  from round_within_half_quantum[OF this]
  obtain v where v: "roundToDouble r = Finite v" "\<bar>v - r\<bar> \<le> quantum r / 2" by auto
  from v(2) q have "\<bar>v - r\<bar> \<le> \<bar>r\<bar> / 2 ^ 53" by linarith
  with v(1) show ?thesis by blast
qed

lemma round_absolute:
  assumes "\<bar>r\<bar> \<le> 2 ^ 1023"
  shows "\<exists>v. roundToDouble r = Finite v \<and> \<bar>v - r\<bar> \<le> \<bar>r\<bar> / 2 ^ 53 + MIN_VALUE / 2"
proof (cases "MIN_NORMAL \<le> \<bar>r\<bar>")
  case True
  have m: "0 \<le> MIN_VALUE / 2" by (simp add: MIN_VALUE_def)
  from round_relative[OF True assms]
  obtain v where v: "roundToDouble r = Finite v" "\<bar>v - r\<bar> \<le> \<bar>r\<bar> / 2 ^ 53" by auto
  from v(2) m have "\<bar>v - r\<bar> \<le> \<bar>r\<bar> / 2 ^ 53 + MIN_VALUE / 2" by linarith
  with v(1) show ?thesis by blast
next
  case False
  then have q: "quantum r = MIN_VALUE" by (simp add: quantum_def)
  have "(2 ^ 1023 + MIN_VALUE / 2 :: real) < OVERFLOW"
    by (simp add: OVERFLOW_def MIN_VALUE_def)
  then have "\<bar>r\<bar> + quantum r / 2 < OVERFLOW" using assms q by linarith
  from round_within_half_quantum[OF this] q
  obtain v where v: "roundToDouble r = Finite v" "\<bar>v - r\<bar> \<le> MIN_VALUE / 2" by auto
  have "0 \<le> \<bar>r\<bar> / 2 ^ 53" by simp
  with v(2) have "\<bar>v - r\<bar> \<le> \<bar>r\<bar> / 2 ^ 53 + MIN_VALUE / 2" by linarith
  with v(1) show ?thesis by blast
qed

lemma two_roundings:
  fixes u S T s :: real
  assumes "0 \<le> u" "u \<le> 1" "0 \<le> S" "\<bar>T - S\<bar> \<le> u * S" "\<bar>s - T\<bar> \<le> u * T"
  shows "\<bar>s - S\<bar> \<le> 3 * u * S"
proof -
  have uS: "0 \<le> u * S" using assms by simp
  have "T \<le> S + u * S" using assms(4) by linarith
  then have "u * T \<le> u * (S + u * S)" using assms(1) by (rule mult_left_mono)
  moreover have "u * (u * S) \<le> 1 * (u * S)" using assms(2) uS by (rule mult_right_mono)
  ultimately have "u * T \<le> 2 * (u * S)" by (simp add: algebra_simps)
  with assms(4,5) show ?thesis by linarith
qed

lemma sqrt_relative:
  fixes k S s :: real
  assumes "0 \<le> k" "k \<le> 1" "0 \<le> S" "\<bar>s - S\<bar> \<le> k * S"
  shows "\<bar>sqrt s - sqrt S\<bar> \<le> k * sqrt S"
proof -
  have a: "(1 - k) * ((1 - k) * S) \<le> 1 * ((1 - k) * S)"
    using assms by (intro mult_right_mono) simp_all
  have "(1 - k) * S = S - k * S" by (simp add: algebra_simps)
  then have b: "(1 - k) * S \<le> s" using assms(4) by linarith
  from a b have "(1 - k) * (1 - k) * S \<le> s" by (simp add: mult.assoc)
  then have "sqrt ((1 - k) * (1 - k) * S) \<le> sqrt s" by (rule real_sqrt_le_mono)
  then have "(1 - k) * sqrt S \<le> sqrt s"
    using assms(2) by (simp add: real_sqrt_mult)
  then have lo: "sqrt S - k * sqrt S \<le> sqrt s" by (simp add: algebra_simps)
  have c: "1 * ((1 + k) * S) \<le> (1 + k) * ((1 + k) * S)"
    using assms by (intro mult_right_mono) simp_all
  have "(1 + k) * S = S + k * S" by (simp add: algebra_simps)
  then have d: "s \<le> (1 + k) * S" using assms(4) by linarith
  from c d have "s \<le> (1 + k) * (1 + k) * S" by (simp add: mult.assoc)
  then have "sqrt s \<le> sqrt ((1 + k) * (1 + k) * S)" by (rule real_sqrt_le_mono)
  then have "sqrt s \<le> (1 + k) * sqrt S"
    using assms(1) by (simp add: real_sqrt_mult)
  then have hi: "sqrt s \<le> sqrt S + k * sqrt S" by (simp add: algebra_simps)
  from lo hi show ?thesis by linarith
qed

lemma length_relative:
  fixes u N R len :: real
  assumes "0 \<le> u" "u \<le> 1 / 3" "0 \<le> N" "\<bar>R - N\<bar> \<le> 3 * u * N" "\<bar>len - R\<bar> \<le> u * R"
  shows "\<bar>len - N\<bar> \<le> 5 * u * N"
proof -
  have "3 * u * N \<le> 1 * N" using assms by (intro mult_right_mono) simp_all
  with assms(4) have "R \<le> 2 * N" by linarith
  then have "u * R \<le> u * (2 * N)" using assms(1) by (rule mult_left_mono)
  with assms(4,5) show ?thesis by linarith
qed

lemma quotient_error:
  fixes u N c len :: real
  assumes "0 \<le> u" "u \<le> 1 / 10" "0 < N" "\<bar>c\<bar> \<le> N" "\<bar>len - N\<bar> \<le> 5 * u * N"
  shows "N / 2 \<le> len" and "\<bar>c / len\<bar> \<le> 2" and "\<bar>c / len - c / N\<bar> \<le> 10 * u"
proof -
  have "5 * u * N \<le> 1 / 2 * N" using assms by (intro mult_right_mono) simp_all
  with assms(5) show len: "N / 2 \<le> len" by linarith
  then have lp: "0 < len" using assms(3) by linarith
  have "\<bar>c\<bar> / len \<le> N / len" using assms(4) lp by (simp add: divide_right_mono)
  also have "\<dots> \<le> N / (N / 2)" using len assms(3) by (intro divide_left_mono) simp_all
  also have "\<dots> = 2" using assms(3) by simp
  finally show "\<bar>c / len\<bar> \<le> 2" using lp by simp
  have "c / len - c / N = c / len * ((N - len) / N)"
    using lp assms(3) by (simp add: field_simps)
  then have "\<bar>c / len - c / N\<bar> = \<bar>c / len\<bar> * (\<bar>N - len\<bar> / N)"
    using assms(3) by (simp add: abs_mult)
  also have "\<dots> \<le> 2 * (5 * u)"
  proof (rule mult_mono)
    show "\<bar>c / len\<bar> \<le> 2" by fact
    have "\<bar>N - len\<bar> / N \<le> 5 * u * N / N"
      using assms(3,5) by (intro divide_right_mono) simp_all
    then show "\<bar>N - len\<bar> / N \<le> 5 * u" using assms(3) by simp
    show "0 \<le> (2::real)" by simp
    show "0 \<le> \<bar>N - len\<bar> / N" using assms(3) by simp
  qed
  finally show "\<bar>c / len - c / N\<bar> \<le> 10 * u" by simp
qed

lemma square_rounds:
  assumes "c = 0 \<or> (1 / 2 ^ 510 \<le> \<bar>c\<bar> \<and> \<bar>c\<bar> \<le> 2 ^ 510)"
  shows "\<exists>C. mul_double (Finite c) (Finite c) = Finite C \<and> \<bar>C - c * c\<bar> \<le> 1 / 2 ^ 53 * (c * c)"
proof (cases "c = 0")
  case True
  then show ?thesis by (simp add: round_zero)
next
  case False
  define lo hi :: real where "lo = 1 / 2 ^ 510" and "hi = 2 ^ 510"
  have c: "lo \<le> \<bar>c\<bar>" "\<bar>c\<bar> \<le> hi" using assms False by (simp_all add: lo_def hi_def)
  have lo0: "0 \<le> lo" by (simp add: lo_def)
  have "lo * lo \<le> \<bar>c\<bar> * \<bar>c\<bar>" using c(1) lo0 by (intro mult_mono) simp_all
  moreover have "MIN_NORMAL \<le> lo * lo" by (simp add: lo_def MIN_NORMAL_def)
  ultimately have n: "MIN_NORMAL \<le> \<bar>c * c\<bar>" by (simp add: abs_mult)
  have "\<bar>c\<bar> * \<bar>c\<bar> \<le> hi * hi" using c(2) by (intro mult_mono) simp_all
  moreover have "hi * hi \<le> 2 ^ 1023" by (simp add: hi_def)
  ultimately have m: "\<bar>c * c\<bar> \<le> 2 ^ 1023" by (simp add: abs_mult)
  from round_relative[OF n m]
  obtain v where "roundToDouble (c * c) = Finite v" "\<bar>v - c * c\<bar> \<le> \<bar>c * c\<bar> / 2 ^ 53"
    by auto
  then show ?thesis by (auto simp: abs_mult)
qed

lemma magnitude_close:
  fixes qx qy ex ey d :: real
  assumes "\<bar>qx - ex\<bar> \<le> d" "\<bar>qy - ey\<bar> \<le> d" "sqrt (ex * ex + ey * ey) = 1"
  shows "\<bar>sqrt (qx * qx + qy * qy) - 1\<bar> \<le> 2 * d"
proof -
  have e: "sqrt ((qx - ex)\<^sup>2 + (qy - ey)\<^sup>2) \<le> 2 * d"
    using sqrt_sum_squares_le_sum_abs[of "qx - ex" "qy - ey"] assms(1,2) by linarith
  have e': "sqrt ((ex - qx)\<^sup>2 + (ey - qy)\<^sup>2) \<le> 2 * d"
    using sqrt_sum_squares_le_sum_abs[of "ex - qx" "ey - qy"] assms(1,2) by linarith
  have "sqrt ((ex + (qx - ex))\<^sup>2 + (ey + (qy - ey))\<^sup>2) \<le>
      sqrt (ex\<^sup>2 + ey\<^sup>2) + sqrt ((qx - ex)\<^sup>2 + (qy - ey)\<^sup>2)"
    by (rule real_sqrt_sum_squares_triangle_ineq)
  then have up: "sqrt (qx * qx + qy * qy) \<le> 1 + 2 * d"
    using e assms(3) by (simp add: power2_eq_square)
  have "sqrt ((qx + (ex - qx))\<^sup>2 + (qy + (ey - qy))\<^sup>2) \<le>
      sqrt (qx\<^sup>2 + qy\<^sup>2) + sqrt ((ex - qx)\<^sup>2 + (ey - qy)\<^sup>2)"
    by (rule real_sqrt_sum_squares_triangle_ineq)
  then have lo: "1 \<le> sqrt (qx * qx + qy * qy) + 2 * d"
    using e' assms(3) by (simp add: power2_eq_square)
  from up lo show ?thesis by linarith
qed

lemma roundHalfEven_ge_floor: "\<lfloor>t\<rfloor> \<le> roundHalfEven t"
  by (simp add: roundHalfEven_def Let_def)

lemma round_overflow:
  assumes "OVERFLOW \<le> r"
  shows "roundToDouble r = PosInfinity"
proof -
  have o: "OVERFLOW = (2::real) powr 1024"
  proof -
    have "(2::real) powr (real 1024) = 2 ^ 1024" by (rule powr_realpow) simp
    then show ?thesis by (simp add: OVERFLOW_def)
  qed
  have r: "0 < r" "MIN_NORMAL \<le> \<bar>r\<bar>" "\<bar>r\<bar> = r"
    using assms by (simp_all add: OVERFLOW_def MIN_NORMAL_def)
  define E where "E = \<lfloor>log 2 r\<rfloor>"
  define p :: real where "p = 2 powr (of_int E)"
  have "1024 \<le> log 2 r" using assms r(1) unfolding o by (simp add: le_log_iff)
  then have "1024 \<le> E" unfolding E_def by linarith
  then have "(1024::real) \<le> of_int E" by linarith
  then have "(2::real) powr 1024 \<le> 2 powr (of_int E)" by (rule powr_mono) simp
  then have "(2::real) powr 1024 \<le> p" by (simp only: p_def)
  then have pO: "OVERFLOW \<le> p" by (simp only: o)
  have pp: "0 < p" by (simp add: p_def)
  have "of_int E \<le> log 2 r" by (simp add: E_def)
  then have pr: "p \<le> r" using r(1) by (simp add: p_def powr_le_iff)
  have q: "quantum r = p / 2 ^ 52"
  proof -
    have "(2::real) powr (of_int (E - 52)) = 2 powr (of_int E - real 52)" by simp
    also have "\<dots> = 2 powr (of_int E) / 2 powr (real 52)" by (rule powr_diff)
    also have "(2::real) powr (real 52) = 2 ^ 52" by (rule powr_realpow) simp
    finally have "(2::real) powr (of_int (E - 52)) = p / 2 ^ 52" by (simp only: p_def)
    moreover have "quantum r = 2 powr (of_int (\<lfloor>log 2 \<bar>r\<bar>\<rfloor> - 52))"
      using r(2) by (simp only: quantum_def not_less[symmetric] if_False)
    ultimately show ?thesis by (simp only: r(3) E_def)
  qed
  have "2 ^ 52 \<le> r / (p / 2 ^ 52)"
  proof -
    have "p / (p / 2 ^ 52) \<le> r / (p / 2 ^ 52)"
      using pr pp by (intro divide_right_mono) simp_all
    then show ?thesis using pp by simp
  qed
  then have "\<lfloor>(2 ^ 52 :: real)\<rfloor> \<le> \<lfloor>r / (p / 2 ^ 52)\<rfloor>" by (rule floor_mono)
  moreover have "\<lfloor>(2 ^ 52 :: real)\<rfloor> = 2 ^ 52" by (simp only: floor_power floor_numeral)
  ultimately have "(2 ^ 52 :: int) \<le> roundHalfEven (r / (p / 2 ^ 52))"
    using roundHalfEven_ge_floor[of "r / (p / 2 ^ 52)"] by linarith
  then have "(of_int (2 ^ 52) :: real) \<le> of_int (roundHalfEven (r / (p / 2 ^ 52)))"
    by (simp only: of_int_le_iff)
  then have "of_int (2 ^ 52) * (p / 2 ^ 52) \<le> of_int (roundHalfEven (r / (p / 2 ^ 52))) * (p / 2 ^ 52)"
    using pp by (intro mult_right_mono) simp_all
  then have "p \<le> of_int (roundHalfEven (r / (p / 2 ^ 52))) * (p / 2 ^ 52)" by simp
  then have "p \<le> of_int (roundHalfEven (r / quantum r)) * quantum r" by (simp only: q)
  with pO have "OVERFLOW \<le> of_int (roundHalfEven (r / quantum r)) * quantum r"
    by linarith
  then show ?thesis by (simp add: roundToDouble_def Let_def)
qed

lemma normalize_double_close:
  fixes a b :: real
  assumes a: "a = 0 \<or> (1 / 2 ^ 510 \<le> \<bar>a\<bar> \<and> \<bar>a\<bar> \<le> 2 ^ 510)"
    and b: "b = 0 \<or> (1 / 2 ^ 510 \<le> \<bar>b\<bar> \<and> \<bar>b\<bar> \<le> 2 ^ 510)"
    and nz: "a \<noteq> 0 \<or> b \<noteq> 0"
  shows "\<exists>qx qy.
     normalize_double \<lparr>x_double = Finite a, y_double = Finite b\<rparr> =
       \<lparr>x_double = Finite qx, y_double = Finite qy\<rparr> \<and>
     \<bar>qx - a / sqrt (a * a + b * b)\<bar> \<le> 1 / 2 ^ 49 \<and>
     \<bar>qy - b / sqrt (a * a + b * b)\<bar> \<le> 1 / 2 ^ 49"
proof -
  define u lo hi :: real where "u = 1 / 2 ^ 53" and "lo = 1 / 2 ^ 510" and "hi = 2 ^ 510"
  define S where "S = a * a + b * b"
  define N where "N = sqrt S"
  have u: "0 \<le> u" "u \<le> 1 / 30" "MIN_VALUE / 2 \<le> u"
    by (simp_all add: u_def MIN_VALUE_def)
  have k: "0 < lo" "MIN_NORMAL \<le> lo * lo / 2" "MIN_NORMAL \<le> lo / 2"
    "4 * (hi * hi) \<le> 2 ^ 1023" "4 * hi \<le> 2 ^ 1023" "0 \<le> hi"
    by (simp_all add: lo_def hi_def MIN_NORMAL_def)
  have ab: "a = 0 \<or> (lo \<le> \<bar>a\<bar> \<and> \<bar>a\<bar> \<le> hi)" "b = 0 \<or> (lo \<le> \<bar>b\<bar> \<and> \<bar>b\<bar> \<le> hi)"
    using a b by (simp_all only: lo_def hi_def)
  obtain A where A: "mul_double (Finite a) (Finite a) = Finite A" "\<bar>A - a * a\<bar> \<le> u * (a * a)"
    using square_rounds[OF a] unfolding u_def by blast
  obtain B where B: "mul_double (Finite b) (Finite b) = Finite B" "\<bar>B - b * b\<bar> \<le> u * (b * b)"
    using square_rounds[OF b] unfolding u_def by blast
  have sq: "lo * lo \<le> c * c \<and> c * c \<le> hi * hi" if "lo \<le> \<bar>c\<bar>" "\<bar>c\<bar> \<le> hi" for c :: real
  proof -
    have "lo * lo \<le> \<bar>c\<bar> * \<bar>c\<bar>" using that(1) k(1) by (intro mult_mono) simp_all
    moreover have "\<bar>c\<bar> * \<bar>c\<bar> \<le> hi * hi" using that(2) by (intro mult_mono) simp_all
    ultimately show ?thesis by simp
  qed
  have sq0: "0 \<le> c * c \<and> c * c \<le> hi * hi" if "c = 0 \<or> (lo \<le> \<bar>c\<bar> \<and> \<bar>c\<bar> \<le> hi)" for c :: real
    using that sq[of c] k(1,6) by (cases "c = 0") (simp, force)
  have Slo: "lo * lo \<le> S"
  proof (cases "a = 0")
    case True
    then have "lo * lo \<le> b * b" using nz ab(2) sq[of b] by simp
    then show ?thesis using True by (simp add: S_def)
  next
    case False
    then have "lo * lo \<le> a * a" using ab(1) sq[of a] by simp
    moreover have "0 \<le> b * b" by simp
    ultimately show ?thesis unfolding S_def by linarith
  qed
  have Shi: "S \<le> 2 * (hi * hi)"
    using sq0[OF ab(1)] sq0[OF ab(2)] unfolding S_def by linarith
  have S0: "0 < S" using Slo k(1) mult_pos_pos[OF k(1) k(1)] by linarith
  have uS: "u * S \<le> 1 / 30 * S" using u(2) S0 by (intro mult_right_mono) simp_all
  have "u * (a * a) + u * (b * b) = u * S" by (simp add: S_def algebra_simps)
  with A(2) B(2) have T: "\<bar>(A + B) - S\<bar> \<le> u * S" unfolding S_def by linarith
  have Tn: "MIN_NORMAL \<le> \<bar>A + B\<bar>" "\<bar>A + B\<bar> \<le> 2 ^ 1023" "0 \<le> A + B"
    using T uS Slo Shi k(2,4) S0 by linarith+
  obtain s where s: "roundToDouble (A + B) = Finite s" "\<bar>s - (A + B)\<bar> \<le> \<bar>A + B\<bar> / 2 ^ 53"
    using round_relative[OF Tn(1,2)] by blast
  have "\<bar>A + B\<bar> / 2 ^ 53 = u * (A + B)" using Tn(3) by (simp add: u_def)
  with s(2) have s2: "\<bar>s - (A + B)\<bar> \<le> u * (A + B)" by simp
  have sS: "\<bar>s - S\<bar> \<le> 3 * u * S"
    using u S0 T s2 by (intro two_roundings[where T = "A + B"]) simp_all
  have uS3: "3 * u * S \<le> 1 / 10 * S" using u(2) S0 by (intro mult_right_mono) simp_all
  have s0: "0 \<le> s" using sS uS3 S0 by linarith
  have "\<bar>sqrt s - sqrt S\<bar> \<le> 3 * u * sqrt S"
    using u S0 sS by (intro sqrt_relative) simp_all
  then have R: "\<bar>sqrt s - N\<bar> \<le> 3 * u * N" by (simp only: N_def)
  have "sqrt (lo * lo) \<le> sqrt S" using Slo by (rule real_sqrt_le_mono)
  moreover have "sqrt (lo * lo) = \<bar>lo\<bar>" by (rule real_sqrt_abs2)
  moreover have "\<bar>lo\<bar> = lo" using k(1) by simp
  ultimately have Nlo: "lo \<le> N" unfolding N_def by linarith
  have "0 \<le> hi * hi" "(2 * hi) * (2 * hi) = 4 * (hi * hi)" by simp_all
  with Shi have "S \<le> (2 * hi) * (2 * hi)" by linarith
  then have "sqrt S \<le> sqrt ((2 * hi) * (2 * hi))" by (rule real_sqrt_le_mono)
  moreover have "sqrt ((2 * hi) * (2 * hi)) = \<bar>2 * hi\<bar>" by (rule real_sqrt_abs2)
  moreover have "\<bar>2 * hi\<bar> = 2 * hi" using k(6) by simp
  ultimately have Nhi: "N \<le> 2 * hi" unfolding N_def by linarith
  have N0: "0 < N" using Nlo k(1) by linarith
  have uN: "3 * u * N \<le> 1 / 10 * N" using u(2) N0 by (intro mult_right_mono) simp_all
  have R0: "0 \<le> sqrt s" using s0 by simp
  have "MIN_NORMAL \<le> sqrt s" using R uN Nlo k(3) N0 by linarith
  moreover have "sqrt s \<le> 2 ^ 1023" using R uN Nhi k(5) by linarith
  ultimately have Rn: "MIN_NORMAL \<le> \<bar>sqrt s\<bar>" "\<bar>sqrt s\<bar> \<le> 2 ^ 1023"
    by (simp_all only: abs_of_nonneg[OF R0])
  obtain len where len: "roundToDouble (sqrt s) = Finite len"
      "\<bar>len - sqrt s\<bar> \<le> \<bar>sqrt s\<bar> / 2 ^ 53"
    using round_relative[OF Rn(1,2)] by blast
  have "\<bar>sqrt s\<bar> / 2 ^ 53 = u * sqrt s" using R0 by (simp add: u_def)
  with len(2) have len2: "\<bar>len - sqrt s\<bar> \<le> u * sqrt s" by simp
  have lenN: "\<bar>len - N\<bar> \<le> 5 * u * N"
    using u N0 R len2 by (intro length_relative[where R = "sqrt s"]) simp_all
  have L: "length_double \<lparr>x_double = Finite a, y_double = Finite b\<rparr> = Finite len"
  proof -
    have "roundToDouble (a * a) = Finite A" "roundToDouble (b * b) = Finite B"
      using A(1) B(1) by simp_all
    then show ?thesis using s0 by (simp add: length_double_def s(1) len(1))
  qed
  have quot: "\<exists>q. div_double (Finite c) (Finite len) = Finite q \<and> \<bar>q - c / N\<bar> \<le> 1 / 2 ^ 49"
    if c: "c * c \<le> S" for c :: real
  proof -
    have "sqrt (c * c) \<le> sqrt S" using c by (rule real_sqrt_le_mono)
    then have cN: "\<bar>c\<bar> \<le> N" by (simp add: N_def)
    have u10: "u \<le> 1 / 10" using u(2) by linarith
    note qe = quotient_error[OF u(1) u10 N0 cN lenN]
    have l0: "len \<noteq> 0" using qe(1) N0 by linarith
    have "\<bar>c / len\<bar> \<le> 2 ^ 1023" using qe(2) by (simp add: order_trans)
    from round_absolute[OF this]
    obtain q where q: "roundToDouble (c / len) = Finite q"
        "\<bar>q - c / len\<bar> \<le> \<bar>c / len\<bar> / 2 ^ 53 + MIN_VALUE / 2"
      by blast
    have "\<bar>c / len\<bar> / 2 ^ 53 = u * \<bar>c / len\<bar>" by (simp add: u_def)
    moreover have "u * \<bar>c / len\<bar> \<le> u * 2" using qe(2) u(1) by (rule mult_left_mono)
    ultimately have "\<bar>q - c / len\<bar> \<le> 3 * u" using q(2) u(3) by linarith
    with qe(3) have "\<bar>q - c / N\<bar> \<le> 16 * u" using u(1) by linarith
    moreover have "16 * u = 1 / 2 ^ 49" by (simp add: u_def)
    ultimately have "\<bar>q - c / N\<bar> \<le> 1 / 2 ^ 49" by (simp only:)
    moreover have "div_double (Finite c) (Finite len) = Finite q" using l0 q(1) by simp
    ultimately show ?thesis by blast
  qed
  have "a * a \<le> S" "b * b \<le> S" by (simp_all add: S_def)
  then obtain qx qy where
    qx: "div_double (Finite a) (Finite len) = Finite qx" "\<bar>qx - a / N\<bar> \<le> 1 / 2 ^ 49" and
    qy: "div_double (Finite b) (Finite len) = Finite qy" "\<bar>qy - b / N\<bar> \<le> 1 / 2 ^ 49"
    using quot by blast
  have "N / 2 \<le> len"
    using quotient_error(1)[OF u(1) _ N0 _ lenN, of 0] u(2) N0 by simp
  then have lp: "0 < len" using N0 by linarith
  then have "roundToDouble (a / len) = Finite qx" "roundToDouble (b / len) = Finite qy"
    using qx(1) qy(1) by simp_all
  then have "normalize_double \<lparr>x_double = Finite a, y_double = Finite b\<rparr> =
       \<lparr>x_double = Finite qx, y_double = Finite qy\<rparr>"
    using lp by (simp add: normalize_double_def L)
  with qx(2) qy(2) show ?thesis unfolding N_def S_def by blast
qed

text \<open>
  On that range the exact \<open>normalize_vec\<close>, which the theorems about the loop use, is
  what the code computes up to \<open>2^(-49)\<close> in each component.
\<close>

lemma normalize_vec_approximates_double:
  fixes a b :: real
  assumes "a = 0 \<or> (1 / 2 ^ 510 \<le> \<bar>a\<bar> \<and> \<bar>a\<bar> \<le> 2 ^ 510)"
    and "b = 0 \<or> (1 / 2 ^ 510 \<le> \<bar>b\<bar> \<and> \<bar>b\<bar> \<le> 2 ^ 510)"
    and "a \<noteq> 0 \<or> b \<noteq> 0"
  shows "\<exists>qx qy.
     normalize_double \<lparr>x_double = Finite a, y_double = Finite b\<rparr> =
       \<lparr>x_double = Finite qx, y_double = Finite qy\<rparr> \<and>
     \<bar>qx - x (normalize_vec \<lparr>x = a, y = b\<rparr>)\<bar> \<le> 1 / 2 ^ 49 \<and>
     \<bar>qy - y (normalize_vec \<lparr>x = a, y = b\<rparr>)\<bar> \<le> 1 / 2 ^ 49"
proof -
  have "normalize_vec \<lparr>x = a, y = b\<rparr> =
      \<lparr>x = a / sqrt (a * a + b * b), y = b / sqrt (a * a + b * b)\<rparr>"
    using assms(3) normalize_vec_nonzero[of "\<lparr>x = a, y = b\<rparr>"] by (simp add: magnitude_def)
  then have "x (normalize_vec \<lparr>x = a, y = b\<rparr>) = a / sqrt (a * a + b * b)"
    "y (normalize_vec \<lparr>x = a, y = b\<rparr>) = b / sqrt (a * a + b * b)"
    by simp_all
  with normalize_double_close[OF assms] show ?thesis by (simp only:)
qed

text \<open>
  Claim C9 says that \<open>normalize\<close> of every non-zero vector has magnitude 1. Two
  non-zero vectors for which it returns \<open>(0,0)\<close>: the square of \<open>2^(-600)\<close> rounds to 0,
  so the computed length of \<open>(0, 2^(-600))\<close> is 0 and the guard \<open>length > 0\<close> fails; the
  square of \<open>2^600\<close> rounds to infinity, so the computed length of \<open>(2^600, 2^600)\<close> is
  infinite and both quotients are 0.
\<close>

theorem normalize_underflow_overflow_counterexample:
  "(1 / 2 ^ 600 :: real) \<noteq> 0 \<and>
   normalize_double \<lparr>x_double = Finite 0, y_double = Finite (1 / 2 ^ 600)\<rparr> =
     \<lparr>x_double = Finite 0, y_double = Finite 0\<rparr> \<and>
   normalize_double \<lparr>x_double = Finite (2 ^ 600), y_double = Finite (2 ^ 600)\<rparr> =
     \<lparr>x_double = Finite 0, y_double = Finite 0\<rparr>"
proof -
  define t h :: real where "t = 1 / 2 ^ 600" and "h = 2 ^ 600"
  have "\<bar>t * t\<bar> < MIN_VALUE / 2" by (simp add: t_def MIN_VALUE_def)
  then have sq: "roundToDouble (t * t) = Finite 0" by (rule round_tiny)
  have "length_double \<lparr>x_double = Finite 0, y_double = Finite t\<rparr> = Finite 0"
    by (simp add: length_double_def sq round_zero)
  then have under: "normalize_double \<lparr>x_double = Finite 0, y_double = Finite t\<rparr> =
     \<lparr>x_double = Finite 0, y_double = Finite 0\<rparr>"
    by (simp add: normalize_double_def Let_def)
  have "OVERFLOW \<le> h * h" by (simp add: h_def OVERFLOW_def)
  then have big: "roundToDouble (h * h) = PosInfinity" by (rule round_overflow)
  have "length_double \<lparr>x_double = Finite h, y_double = Finite h\<rparr> = PosInfinity"
    by (simp add: length_double_def big)
  then have over: "normalize_double \<lparr>x_double = Finite h, y_double = Finite h\<rparr> =
     \<lparr>x_double = Finite 0, y_double = Finite 0\<rparr>"
    by (simp add: normalize_double_def Let_def)
  have "t \<noteq> 0" by (simp add: t_def)
  with under over show ?thesis unfolding t_def h_def by blast
qed

text \<open>
  Claim C9, amended. For every non-zero vector \<open>(a, b)\<close> whose non-zero components
  have an absolute value between \<open>2^(-510)\<close> and \<open>2^510\<close>, \<open>normalize\<close> as computed on
  doubles returns a finite vector whose magnitude is within \<open>2^(-48)\<close> of 1 and whose
  components are within \<open>2^(-49)\<close> of those of \<open>(a, b)\<close> scaled by the positive factor
  \<open>1 / sqrt (a * a + b * b)\<close>: up to rounding it is the unit vector that points the way
  \<open>(a, b)\<close> does.
\<close>

theorem normalize_double_within_tolerance:
  fixes a b :: real
  assumes "a = 0 \<or> (1 / 2 ^ 510 \<le> \<bar>a\<bar> \<and> \<bar>a\<bar> \<le> 2 ^ 510)"
    and "b = 0 \<or> (1 / 2 ^ 510 \<le> \<bar>b\<bar> \<and> \<bar>b\<bar> \<le> 2 ^ 510)"
    and "a \<noteq> 0 \<or> b \<noteq> 0"
  shows "\<exists>qx qy.
     normalize_double \<lparr>x_double = Finite a, y_double = Finite b\<rparr> =
       \<lparr>x_double = Finite qx, y_double = Finite qy\<rparr> \<and>
     \<bar>sqrt (qx * qx + qy * qy) - 1\<bar> \<le> 1 / 2 ^ 48 \<and>
     0 < 1 / sqrt (a * a + b * b) \<and>
     \<bar>qx - 1 / sqrt (a * a + b * b) * a\<bar> \<le> 1 / 2 ^ 49 \<and>
     \<bar>qy - 1 / sqrt (a * a + b * b) * b\<bar> \<le> 1 / 2 ^ 49"
proof -
  define N where "N = sqrt (a * a + b * b)"
  have S: "0 < a * a + b * b" using assms(3) by (simp add: sum_squares_gt_zero_iff)
  then have N: "0 < N" by (simp add: N_def)
  have NN: "N * N = a * a + b * b" using S by (simp add: N_def)
  have "a / N * (a / N) + b / N * (b / N) = (a * a + b * b) / (N * N)"
    by (simp add: add_divide_distrib)
  also have "\<dots> = 1"
  proof -
    have "a * a + b * b \<noteq> 0" using S by linarith
    then have "(a * a + b * b) / (a * a + b * b) = 1" by (rule divide_self)
    then show ?thesis by (simp only: NN)
  qed
  finally have unit: "sqrt (a / N * (a / N) + b / N * (b / N)) = 1" by simp
  from normalize_double_close[OF assms]
  obtain qx qy where q:
    "normalize_double \<lparr>x_double = Finite a, y_double = Finite b\<rparr> =
       \<lparr>x_double = Finite qx, y_double = Finite qy\<rparr>"
    "\<bar>qx - a / N\<bar> \<le> 1 / 2 ^ 49" "\<bar>qy - b / N\<bar> \<le> 1 / 2 ^ 49"
    unfolding N_def by blast
  have "\<bar>sqrt (qx * qx + qy * qy) - 1\<bar> \<le> 2 * (1 / 2 ^ 49)"
    using q(2,3) unit by (rule magnitude_close)
  moreover have "2 * (1 / 2 ^ 49) = (1 / 2 ^ 48 :: real)" by simp
  ultimately have m: "\<bar>sqrt (qx * qx + qy * qy) - 1\<bar> \<le> 1 / 2 ^ 48" by (simp only:)
  have e: "1 / N * a = a / N" "1 / N * b = b / N" and p: "0 < 1 / N" using N by simp_all
  have "normalize_double \<lparr>x_double = Finite a, y_double = Finite b\<rparr> =
       \<lparr>x_double = Finite qx, y_double = Finite qy\<rparr> \<and>
     \<bar>sqrt (qx * qx + qy * qy) - 1\<bar> \<le> 1 / 2 ^ 48 \<and>
     0 < 1 / N \<and> \<bar>qx - 1 / N * a\<bar> \<le> 1 / 2 ^ 49 \<and> \<bar>qy - 1 / N * b\<bar> \<le> 1 / 2 ^ 49"
    using q m p by (simp only: e)
  then show ?thesis unfolding N_def by blast
qed

theorem normalize_double_within_tolerance_witness:
  "\<exists>qx qy.
     normalize_double \<lparr>x_double = Finite 3, y_double = Finite 4\<rparr> =
       \<lparr>x_double = Finite qx, y_double = Finite qy\<rparr> \<and>
     \<bar>sqrt (qx * qx + qy * qy) - 1\<bar> \<le> 1 / 2 ^ 48 \<and>
     \<bar>qx - 3 / 5\<bar> \<le> 1 / 2 ^ 49 \<and> \<bar>qy - 4 / 5\<bar> \<le> 1 / 2 ^ 49"
proof -
  have h: "(3::real) = 0 \<or> (1 / 2 ^ 510 \<le> \<bar>3::real\<bar> \<and> \<bar>3::real\<bar> \<le> 2 ^ 510)"
    "(4::real) = 0 \<or> (1 / 2 ^ 510 \<le> \<bar>4::real\<bar> \<and> \<bar>4::real\<bar> \<le> 2 ^ 510)"
    "(3::real) \<noteq> 0 \<or> (4::real) \<noteq> 0"
    by simp_all
  have "sqrt (5 * 5) = \<bar>5::real\<bar>" by (rule real_sqrt_abs2)
  moreover have "(3 * 3 + 4 * 4 :: real) = 5 * 5" by simp
  ultimately have five: "sqrt (3 * 3 + 4 * 4) = (5::real)" by simp
  from normalize_double_within_tolerance[OF h] obtain qx qy where q:
     "normalize_double \<lparr>x_double = Finite 3, y_double = Finite 4\<rparr> =
       \<lparr>x_double = Finite qx, y_double = Finite qy\<rparr>"
     "\<bar>sqrt (qx * qx + qy * qy) - 1\<bar> \<le> 1 / 2 ^ 48"
     "\<bar>qx - 1 / sqrt (3 * 3 + 4 * 4) * 3\<bar> \<le> 1 / 2 ^ 49"
     "\<bar>qy - 1 / sqrt (3 * 3 + 4 * 4) * 4\<bar> \<le> 1 / 2 ^ 49"
    by blast
  have "\<bar>qx - 3 / 5\<bar> \<le> 1 / 2 ^ 49" "\<bar>qy - 4 / 5\<bar> \<le> 1 / 2 ^ 49"
    using q(3,4) by (simp_all add: five)
  with q(1,2) show ?thesis by blast
qed

text \<open>
  Claim C10 says that the \<open>normalize\<close> that returns a new vector and the one that
  overwrites its receiver compute the same vector from every input. At \<open>(2^(-600), 0)\<close>
  the computed length is 0 although the vector is not zero: the first returns
  \<open>(0,0)\<close>, the second returns its receiver as it was.
\<close>

theorem normalize_in_place_differs_counterexample:
  "normalize_double \<lparr>x_double = Finite (1 / 2 ^ 600), y_double = Finite 0\<rparr> =
     \<lparr>x_double = Finite 0, y_double = Finite 0\<rparr> \<and>
   normalize_part001_double \<lparr>x_double = Finite (1 / 2 ^ 600), y_double = Finite 0\<rparr> =
     \<lparr>x_double = Finite (1 / 2 ^ 600), y_double = Finite 0\<rparr> \<and>
   (1 / 2 ^ 600 :: real) \<noteq> 0"
proof -
  define t :: real where "t = 1 / 2 ^ 600"
  have "\<bar>t * t\<bar> < MIN_VALUE / 2" by (simp add: t_def MIN_VALUE_def)
  then have sq: "roundToDouble (t * t) = Finite 0" by (rule round_tiny)
  have len: "length_double \<lparr>x_double = Finite t, y_double = Finite 0\<rparr> = Finite 0"
    by (simp add: length_double_def sq round_zero)
  have "normalize_double \<lparr>x_double = Finite t, y_double = Finite 0\<rparr> =
     \<lparr>x_double = Finite 0, y_double = Finite 0\<rparr> \<and>
   normalize_part001_double \<lparr>x_double = Finite t, y_double = Finite 0\<rparr> =
     \<lparr>x_double = Finite t, y_double = Finite 0\<rparr> \<and> t \<noteq> 0"
    by (simp add: normalize_double_def normalize_part001_double_def len Let_def)
      (simp add: t_def)
  then show ?thesis unfolding t_def .
qed

text \<open>
  Claim C10, amended. The two \<open>normalize\<close> bodies return the same vector exactly when
  the computed length is greater than 0, where both return \<open>(x/len, y/len)\<close>, or the
  receiver is the zero vector, where both return \<open>(0,0)\<close>. When the computed length is
  not greater than 0, the first returns \<open>(0,0)\<close> and the second its receiver unchanged.
\<close>

theorem normalize_in_place_agreement:
  "(normalize_double v = normalize_part001_double v) =
     (gt_zero (length_double v) \<or> v = \<lparr>x_double = Finite 0, y_double = Finite 0\<rparr>) \<and>
   normalize_double v =
     (if gt_zero (length_double v)
      then \<lparr>x_double = div_double (x_double v) (length_double v),
            y_double = div_double (y_double v) (length_double v)\<rparr>
      else \<lparr>x_double = Finite 0, y_double = Finite 0\<rparr>) \<and>
   normalize_part001_double v =
     (if gt_zero (length_double v)
      then \<lparr>x_double = div_double (x_double v) (length_double v),
            y_double = div_double (y_double v) (length_double v)\<rparr>
      else v)"
  by (cases v) (auto simp: normalize_double_def normalize_part001_double_def Let_def)

section \<open>The position stays on the grid\<close>














section \<open>One tick of the loop\<close>

lemma normalize_vec_right: "0 < a \<Longrightarrow> normalize_vec \<lparr>x = a, y = 0\<rparr> = \<lparr>x = 1, y = 0\<rparr>"
  by (simp add: normalize_vec_def)

lemma sqrt_diag: "0 < a \<Longrightarrow> sqrt (2 * (a * a)) = sqrt 2 * a"
  by (simp add: real_sqrt_mult)

lemma normalize_vec_diag:
  assumes "0 < a"
  shows "normalize_vec \<lparr>x = a, y = a\<rparr> = \<lparr>x = 1 / sqrt 2, y = 1 / sqrt 2\<rparr>"
proof -
  have "0 < sqrt 2 * a" using assms by simp
  then show ?thesis
    using assms by (simp add: normalize_vec_def sqrt_diag Let_def)
qed

lemma move_zero: "move p \<lparr>x = 0, y = 0\<rparr> = p"
  by (simp add: move_def normalize_vec_def Let_def)

lemma move_part000_zero: "move_part000 cols rows p \<lparr>x = 0, y = 0\<rparr> = p"
  by (simp add: move_part000_def normalize_vec_def Let_def)

lemma move_part001_zero: "move_part001 p \<lparr>x = 0, y = 0\<rparr> = (p, \<lparr>x = 0, y = 0\<rparr>)"
  by (simp add: move_part001_def normalize_part001_def Let_def)

lemma move_x:
  "x (position (move p d)) =
     (if x (position p) + x (normalize_vec d) * speed p \<ge> 0 \<and>
         x (position p) + x (normalize_vec d) * speed p \<le> GRID_COLS
      then x (position p) + x (normalize_vec d) * speed p else x (position p))"
  by (simp add: move_def Let_def)

lemma move_y:
  "y (position (move p d)) =
     (if y (position p) + y (normalize_vec d) * speed p \<ge> 0 \<and>
         y (position p) + y (normalize_vec d) * speed p \<le> GRID_ROWS
      then y (position p) + y (normalize_vec d) * speed p else y (position p))"
  by (simp add: move_def Let_def)

lemma move_part000_x:
  "x (position (move_part000 cols rows p d)) =
     (if x (position p) + x (normalize_vec d) * speed p - radius p \<ge> 0 \<and>
         x (position p) + x (normalize_vec d) * speed p + radius p \<le> cols
      then x (position p) + x (normalize_vec d) * speed p else x (position p))"
  by (simp add: move_part000_def Let_def)

lemma move_part000_y:
  "y (position (move_part000 cols rows p d)) =
     (if y (position p) + y (normalize_vec d) * speed p - radius p \<ge> 0 \<and>
         y (position p) + y (normalize_vec d) * speed p + radius p \<le> rows
      then y (position p) + y (normalize_vec d) * speed p else y (position p))"
  by (simp add: move_part000_def Let_def)

lemma pauseCheck_keeps:
  "GAMERUN (fst (pauseCheck g)) = GAMERUN g"
  "player1 (fst (pauseCheck g)) = player1 g"
  "lastTime (fst (pauseCheck g)) = lastTime g"
  "lastFPS (fst (pauseCheck g)) = lastFPS g"
  "frameCount (fst (pauseCheck g)) = frameCount g"
  "inputManager (fst (pauseCheck g)) = inputManager g"
  "lastPausePressed (fst (pauseCheck g)) = lastPausePressed g"
  by (simp_all add: pauseCheck_def Let_def)

lemma gameLoop_stopped: "\<not> GAMERUN g \<Longrightarrow> gameLoop g t = (g, [])"
  by (simp add: gameLoop_def)

lemma gameLoop_paused:
  assumes "GAMERUN g" and "paused (fst (pauseCheck g))"
  shows "gameLoop g t = (fst (pauseCheck g), snd (pauseCheck g) @ [RequestAnimationFrame])"
  using assms by (simp add: gameLoop_def Let_def split_beta)

lemma gameLoop_running:
  assumes "GAMERUN g" and "\<not> paused (fst (pauseCheck g))"
  shows "player1 (fst (gameLoop g t)) =
           move (player1 g)
             (accumulateMovement (player1 g) (inputManager g) ((t - lastTime g) / 1000))"
  using assms by (simp add: gameLoop_def Let_def split_beta pauseCheck_keeps)

lemma gameLoop_part000_stopped:
  "\<not> GAMERUN g \<Longrightarrow> gameLoop_part000 cols rows g t now1 now2 = (g, [])"
  by (simp add: gameLoop_part000_def)

lemma gameLoop_part000_player:
  assumes "GAMERUN g"
  shows "player1 (fst (gameLoop_part000 cols rows g t now1 now2)) =
           move_part000 cols rows (player1 g)
             (handleInput (player1 g) (inputManager g) ((t - lastTime g) / 1000))"
  using assms by (simp add: gameLoop_part000_def Let_def split_beta)

lemma gameLoop_part001_stopped: "\<not> GAMERUN g \<Longrightarrow> gameLoop_part001 g t = (g, [])"
  by (simp add: gameLoop_part001_def)

lemma gameLoop_part001_player:
  assumes "GAMERUN g"
  shows "player1 (fst (gameLoop_part001 g t)) =
           fst (move_part001 (player1 g)
             (movement_part001 (player1 g) (flags g) ((t - lastTime g) / 1000)))"
  using assms by (simp add: gameLoop_part001_def Let_def split_beta)

lemma gameLoop_zero_movement:
  assumes "accumulateMovement (player1 g) (inputManager g) ((t - lastTime g) / 1000) =
             \<lparr>x = 0, y = 0\<rparr>"
  shows "player1 (fst (gameLoop g t)) = player1 g"
proof (cases "GAMERUN g")
  case False
  then show ?thesis by (simp add: gameLoop_stopped)
next
  case True
  show ?thesis
  proof (cases "paused (fst (pauseCheck g))")
    case True
    with \<open>GAMERUN g\<close> show ?thesis by (simp add: gameLoop_paused pauseCheck_keeps)
  next
    case False
    with \<open>GAMERUN g\<close> assms show ?thesis by (simp add: gameLoop_running move_zero)
  qed
qed

lemma accumulate_right:
  assumes "isKeyPressed im ''d''" "\<not> isKeyPressed im ''w''" "\<not> isKeyPressed im ''s''"
    "\<not> isKeyPressed im ''a''"
  shows "accumulateMovement p im dt = \<lparr>x = speed p * dt, y = 0\<rparr>"
  using assms by (simp add: accumulateMovement_def add_def)

lemma accumulate_part000_right:
  assumes "isKeyPressed im ''d'' \<or> isKeyPressed im ''arrowright''"
    "\<not> (isKeyPressed im ''w'' \<or> isKeyPressed im ''arrowup'')"
    "\<not> (isKeyPressed im ''s'' \<or> isKeyPressed im ''arrowdown'')"
    "\<not> (isKeyPressed im ''a'' \<or> isKeyPressed im ''arrowleft'')"
  shows "accumulateMovement_part000 p im dt = \<lparr>x = speed p * dt, y = 0\<rparr>"
  using assms by (simp add: accumulateMovement_part000_def add_def)

lemma accumulate_right_down:
  assumes "isKeyPressed im ''d''" "isKeyPressed im ''s''" "\<not> isKeyPressed im ''w''"
    "\<not> isKeyPressed im ''a''"
  shows "accumulateMovement p im dt = \<lparr>x = speed p * dt, y = speed p * dt\<rparr>"
  using assms by (simp add: accumulateMovement_def add_def)

lemma accumulate_part000_right_down:
  assumes "isKeyPressed im ''d'' \<or> isKeyPressed im ''arrowright''"
    "isKeyPressed im ''s'' \<or> isKeyPressed im ''arrowdown''"
    "\<not> (isKeyPressed im ''w'' \<or> isKeyPressed im ''arrowup'')"
    "\<not> (isKeyPressed im ''a'' \<or> isKeyPressed im ''arrowleft'')"
  shows "accumulateMovement_part000 p im dt = \<lparr>x = speed p * dt, y = speed p * dt\<rparr>"
  using assms by (simp add: accumulateMovement_part000_def add_def)

lemma handleInput_normalize:
  "normalize_vec (handleInput p im dt) = normalize_vec (accumulateMovement_part000 p im dt)"
  by (cases "accumulateMovement_part000 p im dt")
    (auto simp: handleInput_def Let_def normalize_vec_idem)

lemmas key_simps =
  keydown_def keyup_def onKeyDown_def onKeyUp_def isKeyPressed_def newInputManager_def
  toLowerCase_def toLowerCase_char_def

text \<open>
  Claim C6. When up and down are held together and neither left nor right is, the
  accumulated movement vector is \<open>(0,0)\<close> before any normalisation, and the tick leaves
  the player as it was. This holds in all three versions of the loop: \<open>g\<close> is a state
  of \<open>src/game.ts\<close>, \<open>h\<close> one of \<open>unnamed/part_000\<close> (where the arrow keys count as
  well) and \<open>k\<close> one of \<open>unnamed/part_001\<close> (movement flags).
\<close>

theorem up_and_down_cancel:
  assumes g: "isKeyPressed (inputManager g) ''w''" "isKeyPressed (inputManager g) ''s''"
      "\<not> isKeyPressed (inputManager g) ''a''" "\<not> isKeyPressed (inputManager g) ''d''"
    and h: "isKeyPressed (inputManager h) ''w'' \<or> isKeyPressed (inputManager h) ''arrowup''"
      "isKeyPressed (inputManager h) ''s'' \<or> isKeyPressed (inputManager h) ''arrowdown''"
      "\<not> (isKeyPressed (inputManager h) ''a'' \<or> isKeyPressed (inputManager h) ''arrowleft'')"
      "\<not> (isKeyPressed (inputManager h) ''d'' \<or> isKeyPressed (inputManager h) ''arrowright'')"
    and k: "moveUp (flags k)" "moveDown (flags k)" "\<not> moveLeft (flags k)"
      "\<not> moveRight (flags k)"
  shows "accumulateMovement (player1 g) (inputManager g) dt = \<lparr>x = 0, y = 0\<rparr> \<and>
         player1 (fst (gameLoop g t)) = player1 g \<and>
         accumulateMovement_part000 (player1 h) (inputManager h) dt = \<lparr>x = 0, y = 0\<rparr> \<and>
         handleInput (player1 h) (inputManager h) dt = \<lparr>x = 0, y = 0\<rparr> \<and>
         player1 (fst (gameLoop_part000 cols rows h t now1 now2)) = player1 h \<and>
         accumulateMovement_part001 (player1 k) (flags k) dt = \<lparr>x = 0, y = 0\<rparr> \<and>
         movement_part001 (player1 k) (flags k) dt = \<lparr>x = 0, y = 0\<rparr> \<and>
         player1 (fst (gameLoop_part001 k t)) = player1 k"
proof -
  have ag: "accumulateMovement (player1 g) (inputManager g) d = \<lparr>x = 0, y = 0\<rparr>" for d
    using g by (simp add: accumulateMovement_def add_def)
  have ah: "accumulateMovement_part000 (player1 h) (inputManager h) d = \<lparr>x = 0, y = 0\<rparr>" for d
    using h by (simp add: accumulateMovement_part000_def add_def)
  have ak: "accumulateMovement_part001 (player1 k) (flags k) d = \<lparr>x = 0, y = 0\<rparr>" for d
    using k by (simp add: accumulateMovement_part001_def add_def)
  have hh: "handleInput (player1 h) (inputManager h) d = \<lparr>x = 0, y = 0\<rparr>" for d
    by (simp add: handleInput_def ah)
  have mk: "movement_part001 (player1 k) (flags k) d = \<lparr>x = 0, y = 0\<rparr>" for d
    by (simp add: movement_part001_def ak)
  have pg: "player1 (fst (gameLoop g t)) = player1 g"
    by (rule gameLoop_zero_movement) (rule ag)
  have ph: "player1 (fst (gameLoop_part000 cols rows h t now1 now2)) = player1 h"
    by (cases "GAMERUN h")
      (simp_all add: gameLoop_part000_player gameLoop_part000_stopped hh move_part000_zero)
  have pk: "player1 (fst (gameLoop_part001 k t)) = player1 k"
    by (cases "GAMERUN k")
      (simp_all add: gameLoop_part001_player gameLoop_part001_stopped mk move_part001_zero)
  show ?thesis using ag ah ak hh mk pg ph pk by simp
qed

theorem up_and_down_cancel_witness:
  "player1 (fst (gameLoop (keydown (keydown (initGame 0) ''w'') ''S'') 16)) = initPlayer \<and>
   player1 (fst (gameLoop_part000 10 10
      (keydown (keydown (initGame_part000 0) ''ArrowUp'') ''s'') 16 17 17)) = initPlayer \<and>
   player1 (fst (gameLoop_part001
      ((initGame_part001 0)\<lparr>flags :=
          \<lparr>moveUp = True, moveDown = True, moveLeft = False, moveRight = False\<rparr>\<rparr>) 16)) =
     initPlayer"
proof -
  let ?g = "keydown (keydown (initGame 0) ''w'') ''S''"
  let ?h = "keydown (keydown (initGame_part000 0) ''ArrowUp'') ''s''"
  let ?k = "(initGame_part001 0)\<lparr>flags :=
          \<lparr>moveUp = True, moveDown = True, moveLeft = False, moveRight = False\<rparr>\<rparr>"
  have g: "isKeyPressed (inputManager ?g) ''w''" "isKeyPressed (inputManager ?g) ''s''"
      "\<not> isKeyPressed (inputManager ?g) ''a''" "\<not> isKeyPressed (inputManager ?g) ''d''"
    by (simp_all add: key_simps initGame_def)
  have h: "isKeyPressed (inputManager ?h) ''w'' \<or> isKeyPressed (inputManager ?h) ''arrowup''"
      "isKeyPressed (inputManager ?h) ''s'' \<or> isKeyPressed (inputManager ?h) ''arrowdown''"
      "\<not> (isKeyPressed (inputManager ?h) ''a'' \<or> isKeyPressed (inputManager ?h) ''arrowleft'')"
      "\<not> (isKeyPressed (inputManager ?h) ''d'' \<or> isKeyPressed (inputManager ?h) ''arrowright'')"
    by (simp_all add: key_simps initGame_part000_def)
  have k: "moveUp (flags ?k)" "moveDown (flags ?k)" "\<not> moveLeft (flags ?k)"
      "\<not> moveRight (flags ?k)"
    by simp_all
  have p: "player1 ?g = initPlayer" "player1 ?h = initPlayer" "player1 ?k = initPlayer"
    by (simp_all add: keydown_def initGame_def initGame_part000_def initGame_part001_def)
  show ?thesis
    using up_and_down_cancel[OF g h k, of 0 16 10 10 17 17] p by simp
qed

text \<open>
  Claim C4. On a tick with \<open>dt > 0\<close> on which only right is held, and on which the
  candidate \<open>x + speed\<close> is inside the bounds, the tick moves the player by exactly
  \<open>speed\<close> in x, whatever \<open>dt\<close> is, and leaves y as it was. \<open>g\<close> is a running,
  unpaused state of \<open>src/game.ts\<close> and \<open>h\<close> a running state of \<open>unnamed/part_000\<close>.
  The player's speed is not negative (the game creates it with speed 0.05 and never
  changes it).
\<close>

theorem right_moves_by_speed:
  assumes g: "GAMERUN g" "\<not> paused (fst (pauseCheck g))" "lastTime g < t"
      "isKeyPressed (inputManager g) ''d''" "\<not> isKeyPressed (inputManager g) ''w''"
      "\<not> isKeyPressed (inputManager g) ''s''" "\<not> isKeyPressed (inputManager g) ''a''"
      "0 \<le> speed (player1 g)"
      "0 \<le> x (position (player1 g)) + speed (player1 g)"
      "x (position (player1 g)) + speed (player1 g) \<le> GRID_COLS"
    and h: "GAMERUN h" "lastTime h < u"
      "isKeyPressed (inputManager h) ''d'' \<or> isKeyPressed (inputManager h) ''arrowright''"
      "\<not> (isKeyPressed (inputManager h) ''w'' \<or> isKeyPressed (inputManager h) ''arrowup'')"
      "\<not> (isKeyPressed (inputManager h) ''s'' \<or> isKeyPressed (inputManager h) ''arrowdown'')"
      "\<not> (isKeyPressed (inputManager h) ''a'' \<or> isKeyPressed (inputManager h) ''arrowleft'')"
      "0 \<le> speed (player1 h)"
      "0 \<le> x (position (player1 h)) + speed (player1 h) - radius (player1 h)"
      "x (position (player1 h)) + speed (player1 h) + radius (player1 h) \<le> cols"
  shows "x (position (player1 (fst (gameLoop g t)))) =
           x (position (player1 g)) + speed (player1 g) \<and>
         y (position (player1 (fst (gameLoop g t)))) = y (position (player1 g)) \<and>
         x (position (player1 (fst (gameLoop_part000 cols rows h u now1 now2)))) =
           x (position (player1 h)) + speed (player1 h) \<and>
         y (position (player1 (fst (gameLoop_part000 cols rows h u now1 now2)))) =
           y (position (player1 h))"
proof -
  let ?dt = "(t - lastTime g) / 1000" and ?du = "(u - lastTime h) / 1000"
  have dt: "0 < ?dt" and du: "0 < ?du" using g(3) h(2) by simp_all
  have ng: "normalize_vec (accumulateMovement (player1 g) (inputManager g) ?dt) =
      (if speed (player1 g) = 0 then \<lparr>x = 0, y = 0\<rparr> else \<lparr>x = 1, y = 0\<rparr>)"
    using g(8) dt
    by (simp add: accumulate_right[OF g(4-7)] normalize_vec_right normalize_vec_zero)
  have nh: "normalize_vec (handleInput (player1 h) (inputManager h) ?du) =
      (if speed (player1 h) = 0 then \<lparr>x = 0, y = 0\<rparr> else \<lparr>x = 1, y = 0\<rparr>)"
    using h(7) du
    by (simp add: handleInput_normalize accumulate_part000_right[OF h(3-6)] normalize_vec_right
        normalize_vec_zero)
  have a: "x (position (player1 (fst (gameLoop g t)))) =
      x (position (player1 g)) + speed (player1 g)"
    using g(9,10) by (simp add: gameLoop_running[OF g(1,2)] move_x ng)
  have b: "y (position (player1 (fst (gameLoop g t)))) = y (position (player1 g))"
    by (simp add: gameLoop_running[OF g(1,2)] move_y ng)
  have c: "x (position (player1 (fst (gameLoop_part000 cols rows h u now1 now2)))) =
           x (position (player1 h)) + speed (player1 h)"
    using h(8,9) by (simp add: gameLoop_part000_player[OF h(1)] move_part000_x nh)
  have d: "y (position (player1 (fst (gameLoop_part000 cols rows h u now1 now2)))) =
           y (position (player1 h))"
    by (simp add: gameLoop_part000_player[OF h(1)] move_part000_y nh)
  show ?thesis using a b c d by simp
qed

theorem right_moves_by_speed_witness:
  "position (player1 (fst (gameLoop (keydown (initGame 0) ''d'') 16))) =
     \<lparr>x = 0.55, y = 0.5\<rparr> \<and>
   position (player1 (fst (gameLoop_part000 10 10
      (keydown (initGame_part000 0) ''ArrowRight'') 16 17 17))) = \<lparr>x = 0.55, y = 0.5\<rparr>"
proof -
  let ?g = "keydown (initGame 0) ''d''"
  let ?h = "keydown (initGame_part000 0) ''ArrowRight''"
  have pg: "player1 ?g = initPlayer" and ph: "player1 ?h = initPlayer"
    by (simp_all add: keydown_def initGame_def initGame_part000_def)
  have g: "GAMERUN ?g" "\<not> paused (fst (pauseCheck ?g))" "lastTime ?g < 16"
      "isKeyPressed (inputManager ?g) ''d''" "\<not> isKeyPressed (inputManager ?g) ''w''"
      "\<not> isKeyPressed (inputManager ?g) ''s''" "\<not> isKeyPressed (inputManager ?g) ''a''"
      "0 \<le> speed (player1 ?g)"
      "0 \<le> x (position (player1 ?g)) + speed (player1 ?g)"
      "x (position (player1 ?g)) + speed (player1 ?g) \<le> GRID_COLS"
    by (simp_all add: key_simps initGame_def pauseCheck_def initPlayer_def GRID_COLS_def)
  have h: "GAMERUN ?h" "lastTime ?h < 16"
      "isKeyPressed (inputManager ?h) ''d'' \<or> isKeyPressed (inputManager ?h) ''arrowright''"
      "\<not> (isKeyPressed (inputManager ?h) ''w'' \<or> isKeyPressed (inputManager ?h) ''arrowup'')"
      "\<not> (isKeyPressed (inputManager ?h) ''s'' \<or> isKeyPressed (inputManager ?h) ''arrowdown'')"
      "\<not> (isKeyPressed (inputManager ?h) ''a'' \<or> isKeyPressed (inputManager ?h) ''arrowleft'')"
      "0 \<le> speed (player1 ?h)"
      "0 \<le> x (position (player1 ?h)) + speed (player1 ?h) - radius (player1 ?h)"
      "x (position (player1 ?h)) + speed (player1 ?h) + radius (player1 ?h) \<le> 10"
    by (simp_all add: key_simps initGame_part000_def initPlayer_def)
  have "x (position (player1 (fst (gameLoop ?g 16)))) = 0.55 \<and>
        y (position (player1 (fst (gameLoop ?g 16)))) = 0.5 \<and>
        x (position (player1 (fst (gameLoop_part000 10 10 ?h 16 17 17)))) = 0.55 \<and>
        y (position (player1 (fst (gameLoop_part000 10 10 ?h 16 17 17)))) = 0.5"
    using right_moves_by_speed[OF g h, of 10 17 17] by (simp add: pg ph initPlayer_def)
  then show ?thesis
    by (cases "position (player1 (fst (gameLoop ?g 16)))";
        cases "position (player1 (fst (gameLoop_part000 10 10 ?h 16 17 17)))") simp
qed

text \<open>
  Claim C8. On a tick of \<open>src/game.ts\<close> that finds the game paused after the pause
  check, the player, \<open>lastTime\<close>, \<open>lastFPS\<close> and \<open>frameCount\<close> are as before, nothing
  is redrawn and no FPS text is drawn: beyond the pause check's own console line the
  tick does one thing, the request for the next tick, and the loop flag stays set so
  that this next tick polls the pause key again.
\<close>

theorem paused_tick_only_reschedules:
  assumes "GAMERUN g" and "paused (fst (pauseCheck g))"
  shows "player1 (fst (gameLoop g t)) = player1 g \<and>
         lastTime (fst (gameLoop g t)) = lastTime g \<and>
         lastFPS (fst (gameLoop g t)) = lastFPS g \<and>
         frameCount (fst (gameLoop g t)) = frameCount g \<and>
         paused (fst (gameLoop g t)) \<and> GAMERUN (fst (gameLoop g t)) \<and>
         snd (gameLoop g t) = snd (pauseCheck g) @ [RequestAnimationFrame] \<and>
         redraws (snd (gameLoop g t)) = [] \<and>
         fpsShown (snd (gameLoop g t)) = [] \<and>
         last (snd (gameLoop g t)) = RequestAnimationFrame"
proof -
  have e: "snd (pauseCheck g) = [] \<or> snd (pauseCheck g) = [ConsoleLog_Paused (\<not> paused g)]"
    by (simp add: pauseCheck_def Let_def)
  have r: "redraws (snd (pauseCheck g) @ [RequestAnimationFrame]) = []"
    using e by auto
  have f: "fpsShown (snd (pauseCheck g) @ [RequestAnimationFrame]) = []"
    using e by auto
  show ?thesis
    using assms r f by (simp add: gameLoop_paused pauseCheck_keeps)
qed

theorem paused_tick_only_reschedules_witness:
  "player1 (fst (gameLoop ((initGame 0)\<lparr>paused := True\<rparr>) 16)) = initPlayer \<and>
   lastTime (fst (gameLoop ((initGame 0)\<lparr>paused := True\<rparr>) 16)) = 0 \<and>
   frameCount (fst (gameLoop ((initGame 0)\<lparr>paused := True\<rparr>) 16)) = 0 \<and>
   snd (gameLoop ((initGame 0)\<lparr>paused := True\<rparr>) 16) = [RequestAnimationFrame]"
proof -
  let ?g = "(initGame 0)\<lparr>paused := True\<rparr>"
  have a: "GAMERUN ?g" by (simp add: initGame_def)
  have p: "pauseCheck ?g = (?g, [])"
    by (simp add: pauseCheck_def initGame_def isKeyPressed_def newInputManager_def)
  have b: "paused (fst (pauseCheck ?g))" by (simp add: p)
  show ?thesis
    using paused_tick_only_reschedules[OF a b, of 16] by (simp add: p) (simp add: initGame_def)
qed

section \<open>The two axes are checked one by one\<close>

text \<open>
  Claim C3 says that an entity at \<open>x = GRID_COLS - radius\<close> holding right and down
  does not move further in x and does move in y on that tick. Two ticks on which it
  is otherwise. In \<open>src/game.ts\<close> the bound is \<open>GRID_COLS\<close> itself, so the player
  at \<open>x = 9.8 = GRID_COLS - radius\<close> moves further right. In \<open>unnamed/part_000\<close> a
  tick whose time stamp equals \<open>lastTime\<close> has \<open>dt = 0\<close>; the contributions of the
  held keys are then zero and the player does not move in y either.
\<close>

theorem right_edge_counterexample:
  "x (position (playerAt 9.8 0.5)) = GRID_COLS - radius (playerAt 9.8 0.5) \<and>
   x (position (playerAt 9.8 0.5)) <
     x (position (player1 (fst (gameLoop
        ((keydown (keydown (initGame 0) ''d'') ''s'')\<lparr>player1 := playerAt 9.8 0.5\<rparr>) 16)))) \<and>
   y (position (player1 (fst (gameLoop_part000 10 10
        ((keydown (keydown (initGame_part000 0) ''d'') ''s'')\<lparr>player1 := playerAt 9.8 0.5\<rparr>)
        0 0 0)))) = y (position (playerAt 9.8 0.5))"
proof -
  let ?p = "playerAt 9.8 0.5"
  let ?g = "(keydown (keydown (initGame 0) ''d'') ''s'')\<lparr>player1 := ?p\<rparr>"
  let ?h = "(keydown (keydown (initGame_part000 0) ''d'') ''s'')\<lparr>player1 := ?p\<rparr>"
  have p: "x (position (playerAt a b)) = a" "y (position (playerAt a b)) = b"
    "radius (playerAt a b) = 0.2" "speed (playerAt a b) = 0.05" for a b
    by (simp_all add: playerAt_def initPlayer_def)
  have g: "GAMERUN ?g" "\<not> paused (fst (pauseCheck ?g))" "player1 ?g = ?p" "lastTime ?g = 0"
    "isKeyPressed (inputManager ?g) ''d''" "isKeyPressed (inputManager ?g) ''s''"
    "\<not> isKeyPressed (inputManager ?g) ''w''" "\<not> isKeyPressed (inputManager ?g) ''a''"
    by (simp_all add: key_simps initGame_def pauseCheck_def)
  have n: "normalize_vec (accumulateMovement ?p (inputManager ?g) ((16 - 0) / 1000)) =
      \<lparr>x = 1 / sqrt 2, y = 1 / sqrt 2\<rparr>"
    by (simp only: accumulate_right_down[OF g(5-8)] p) (rule normalize_vec_diag, simp)
  have s: "0 < 1 / sqrt 2" "1 / sqrt 2 < 1" by simp_all
  have "0 \<le> 9.8 + r * 0.05 \<and> 9.8 + r * 0.05 \<le> (10::real)" if "0 < r" "r < 1" for r :: real
    using that by simp
  from this[OF s]
  have b: "0 \<le> 9.8 + 1 / sqrt 2 * 0.05 \<and> 9.8 + 1 / sqrt 2 * 0.05 \<le> (10::real)" .
  have run: "player1 (fst (gameLoop ?g 16)) =
      move ?p (accumulateMovement ?p (inputManager ?g) ((16 - 0) / 1000))"
    using gameLoop_running[OF g(1,2), of 16] by (simp only: g(3,4))
  have "x (position (player1 (fst (gameLoop ?g 16)))) = 9.8 + 1 / sqrt 2 * 0.05"
    using b by (simp only: run move_x n) (simp add: p GRID_COLS_def)
  then have one: "x (position ?p) < x (position (player1 (fst (gameLoop ?g 16))))"
    using s(1) by (simp only: p) simp
  have h: "GAMERUN ?h" "player1 ?h = ?p" "lastTime ?h = 0"
    by (simp_all add: keydown_def initGame_part000_def)
  have z: "handleInput ?p (inputManager ?h) ((0 - 0) / 1000) = \<lparr>x = 0, y = 0\<rparr>"
    by (simp add: handleInput_def accumulateMovement_part000_def add_def Let_def)
  have "player1 (fst (gameLoop_part000 10 10 ?h 0 0 0)) =
      move_part000 10 10 ?p (handleInput ?p (inputManager ?h) ((0 - 0) / 1000))"
    using gameLoop_part000_player[OF h(1), of 10 10 0 0 0] by (simp only: h(2,3))
  then have two: "y (position (player1 (fst (gameLoop_part000 10 10 ?h 0 0 0)))) = y (position ?p)"
    by (simp only: z move_part000_zero)
  have zero: "x (position ?p) = GRID_COLS - radius ?p"
    by (simp add: p GRID_COLS_def)
  show ?thesis using zero one two by blast
qed

text \<open>
  Claim C3, amended. \<open>move\<close> decides each axis from that axis' candidate alone: an axis
  whose candidate is out of bounds keeps its value, an axis whose candidate is in
  bounds takes it, whatever happens to the other axis (any player \<open>p\<close>, any direction
  \<open>d\<close>, both bounds policies). In particular, on a tick with \<open>dt > 0\<close> on which right
  and down are held and up and left are not, a player of positive speed that stands at
  the right bound (\<open>x = GRID_COLS - radius\<close> in \<open>unnamed/part_000\<close>, state \<open>h\<close>;
  \<open>x = GRID_COLS\<close> in \<open>src/game.ts\<close>, state \<open>g\<close>) keeps its x, and its y goes to the
  candidate \<open>y + speed / sqrt 2\<close>, which is greater than \<open>y\<close>, whenever that candidate
  is in bounds.
\<close>

theorem move_axes_independent:
  assumes h: "GAMERUN h" "lastTime h < u" "0 < speed (player1 h)"
      "x (position (player1 h)) = cols - radius (player1 h)"
      "isKeyPressed (inputManager h) ''d'' \<or> isKeyPressed (inputManager h) ''arrowright''"
      "isKeyPressed (inputManager h) ''s'' \<or> isKeyPressed (inputManager h) ''arrowdown''"
      "\<not> (isKeyPressed (inputManager h) ''w'' \<or> isKeyPressed (inputManager h) ''arrowup'')"
      "\<not> (isKeyPressed (inputManager h) ''a'' \<or> isKeyPressed (inputManager h) ''arrowleft'')"
    and g: "GAMERUN g" "\<not> paused (fst (pauseCheck g))" "lastTime g < t"
      "0 < speed (player1 g)" "x (position (player1 g)) = GRID_COLS"
      "isKeyPressed (inputManager g) ''d''" "isKeyPressed (inputManager g) ''s''"
      "\<not> isKeyPressed (inputManager g) ''w''" "\<not> isKeyPressed (inputManager g) ''a''"
  shows "x (position (move_part000 cols rows p d)) =
           (if x (position p) + x (normalize_vec d) * speed p - radius p \<ge> 0 \<and>
               x (position p) + x (normalize_vec d) * speed p + radius p \<le> cols
            then x (position p) + x (normalize_vec d) * speed p else x (position p)) \<and>
         y (position (move_part000 cols rows p d)) =
           (if y (position p) + y (normalize_vec d) * speed p - radius p \<ge> 0 \<and>
               y (position p) + y (normalize_vec d) * speed p + radius p \<le> rows
            then y (position p) + y (normalize_vec d) * speed p else y (position p)) \<and>
         x (position (move p d)) =
           (if x (position p) + x (normalize_vec d) * speed p \<ge> 0 \<and>
               x (position p) + x (normalize_vec d) * speed p \<le> GRID_COLS
            then x (position p) + x (normalize_vec d) * speed p else x (position p)) \<and>
         y (position (move p d)) =
           (if y (position p) + y (normalize_vec d) * speed p \<ge> 0 \<and>
               y (position p) + y (normalize_vec d) * speed p \<le> GRID_ROWS
            then y (position p) + y (normalize_vec d) * speed p else y (position p)) \<and>
         x (position (player1 (fst (gameLoop_part000 cols rows h u now1 now2)))) =
           x (position (player1 h)) \<and>
         y (position (player1 h)) < y (position (player1 h)) + speed (player1 h) / sqrt 2 \<and>
         y (position (player1 (fst (gameLoop_part000 cols rows h u now1 now2)))) =
           (if y (position (player1 h)) + speed (player1 h) / sqrt 2 - radius (player1 h) \<ge> 0 \<and>
               y (position (player1 h)) + speed (player1 h) / sqrt 2 + radius (player1 h) \<le> rows
            then y (position (player1 h)) + speed (player1 h) / sqrt 2
            else y (position (player1 h))) \<and>
         x (position (player1 (fst (gameLoop g t)))) = x (position (player1 g)) \<and>
         y (position (player1 g)) < y (position (player1 g)) + speed (player1 g) / sqrt 2 \<and>
         y (position (player1 (fst (gameLoop g t)))) =
           (if y (position (player1 g)) + speed (player1 g) / sqrt 2 \<ge> 0 \<and>
               y (position (player1 g)) + speed (player1 g) / sqrt 2 \<le> GRID_ROWS
            then y (position (player1 g)) + speed (player1 g) / sqrt 2
            else y (position (player1 g)))"
proof -
  let ?dt = "(t - lastTime g) / 1000" and ?du = "(u - lastTime h) / 1000"
  have ag: "0 < speed (player1 g) * ?dt" and ah: "0 < speed (player1 h) * ?du"
    using g(3,4) h(2,3) by simp_all
  have ng: "normalize_vec (accumulateMovement (player1 g) (inputManager g) ?dt) =
      \<lparr>x = 1 / sqrt 2, y = 1 / sqrt 2\<rparr>"
    by (simp only: accumulate_right_down[OF g(6-9)] normalize_vec_diag[OF ag])
  have nh: "normalize_vec (handleInput (player1 h) (inputManager h) ?du) =
      \<lparr>x = 1 / sqrt 2, y = 1 / sqrt 2\<rparr>"
    by (simp only: handleInput_normalize accumulate_part000_right_down[OF h(5-8)]
        normalize_vec_diag[OF ah])
  have sg: "0 < speed (player1 g) / sqrt 2" and sh: "0 < speed (player1 h) / sqrt 2"
    using g(4) h(3) by simp_all
  have a: "x (position (player1 (fst (gameLoop_part000 cols rows h u now1 now2)))) =
           x (position (player1 h))"
    using sh h(4) by (simp add: gameLoop_part000_player[OF h(1)] move_part000_x nh)
  have b: "y (position (player1 (fst (gameLoop_part000 cols rows h u now1 now2)))) =
           (if y (position (player1 h)) + speed (player1 h) / sqrt 2 - radius (player1 h) \<ge> 0 \<and>
               y (position (player1 h)) + speed (player1 h) / sqrt 2 + radius (player1 h) \<le> rows
            then y (position (player1 h)) + speed (player1 h) / sqrt 2
            else y (position (player1 h)))"
    by (simp add: gameLoop_part000_player[OF h(1)] move_part000_y nh)
  have c: "x (position (player1 (fst (gameLoop g t)))) = x (position (player1 g))"
    using sg g(5) by (simp add: gameLoop_running[OF g(1,2)] move_x ng)
  have e: "y (position (player1 (fst (gameLoop g t)))) =
           (if y (position (player1 g)) + speed (player1 g) / sqrt 2 \<ge> 0 \<and>
               y (position (player1 g)) + speed (player1 g) / sqrt 2 \<le> GRID_ROWS
            then y (position (player1 g)) + speed (player1 g) / sqrt 2
            else y (position (player1 g)))"
    by (simp add: gameLoop_running[OF g(1,2)] move_y ng)
  show ?thesis
    using a b c e sg sh move_x[of p d] move_y[of p d] move_part000_x[of cols rows p d]
      move_part000_y[of cols rows p d]
    by simp
qed

theorem move_axes_independent_witness:
  "x (position (player1 (fst (gameLoop_part000 10 10
        ((keydown (keydown (initGame_part000 0) ''ArrowRight'') ''s'')\<lparr>player1 := playerAt 9.8 0.5\<rparr>)
        16 17 17)))) = 9.8 \<and>
   y (position (player1 (fst (gameLoop_part000 10 10
        ((keydown (keydown (initGame_part000 0) ''ArrowRight'') ''s'')\<lparr>player1 := playerAt 9.8 0.5\<rparr>)
        16 17 17)))) = 0.5 + 0.05 / sqrt 2 \<and>
   x (position (player1 (fst (gameLoop
        ((keydown (keydown (initGame 0) ''d'') ''s'')\<lparr>player1 := playerAt 10 0.5\<rparr>) 16)))) = 10 \<and>
   y (position (player1 (fst (gameLoop
        ((keydown (keydown (initGame 0) ''d'') ''s'')\<lparr>player1 := playerAt 10 0.5\<rparr>) 16)))) =
     0.5 + 0.05 / sqrt 2"
proof -
  let ?h = "(keydown (keydown (initGame_part000 0) ''ArrowRight'') ''s'')\<lparr>player1 := playerAt 9.8 0.5\<rparr>"
  let ?g = "(keydown (keydown (initGame 0) ''d'') ''s'')\<lparr>player1 := playerAt 10 0.5\<rparr>"
  have h: "GAMERUN ?h" "lastTime ?h < 16" "0 < speed (player1 ?h)"
      "x (position (player1 ?h)) = 10 - radius (player1 ?h)"
      "isKeyPressed (inputManager ?h) ''d'' \<or> isKeyPressed (inputManager ?h) ''arrowright''"
      "isKeyPressed (inputManager ?h) ''s'' \<or> isKeyPressed (inputManager ?h) ''arrowdown''"
      "\<not> (isKeyPressed (inputManager ?h) ''w'' \<or> isKeyPressed (inputManager ?h) ''arrowup'')"
      "\<not> (isKeyPressed (inputManager ?h) ''a'' \<or> isKeyPressed (inputManager ?h) ''arrowleft'')"
    by (simp_all add: key_simps initGame_part000_def playerAt_def initPlayer_def)
  have g: "GAMERUN ?g" "\<not> paused (fst (pauseCheck ?g))" "lastTime ?g < 16"
      "0 < speed (player1 ?g)" "x (position (player1 ?g)) = GRID_COLS"
      "isKeyPressed (inputManager ?g) ''d''" "isKeyPressed (inputManager ?g) ''s''"
      "\<not> isKeyPressed (inputManager ?g) ''w''" "\<not> isKeyPressed (inputManager ?g) ''a''"
    by (simp_all add: key_simps initGame_def pauseCheck_def playerAt_def initPlayer_def
        GRID_COLS_def)
  have p: "player1 ?h = playerAt 9.8 0.5" "player1 ?g = playerAt 10 0.5"
    by (simp_all add: keydown_def)
  have q: "x (position (playerAt a b)) = a" "y (position (playerAt a b)) = b"
    "radius (playerAt a b) = 0.2" "speed (playerAt a b) = 0.05" for a b
    by (simp_all add: playerAt_def initPlayer_def)
  have s: "0 < 1 / sqrt 2" "1 / sqrt 2 < 1" by simp_all
  have "0 \<le> 0.5 + 0.05 * r - 0.2 \<and> 0.5 + 0.05 * r + 0.2 \<le> (10::real) \<and>
        0 \<le> 0.5 + 0.05 * r \<and> 0.5 + 0.05 * r \<le> (10::real)" if "0 < r" "r < 1" for r :: real
    using that by simp
  from this[OF s]
  have b: "0 \<le> 0.5 + 0.05 / sqrt 2 - 0.2 \<and> 0.5 + 0.05 / sqrt 2 + 0.2 \<le> (10::real) \<and>
           0 \<le> 0.5 + 0.05 / sqrt 2 \<and> 0.5 + 0.05 / sqrt 2 \<le> (10::real)"
    by simp
  show ?thesis
    using move_axes_independent[OF h g, of 10 undefined undefined 17 17] b
    by (simp add: p q GRID_ROWS_def)
qed

section \<open>The FPS sample\<close>

lemma fpsSample_eq:
  "fpsSample t prev n =
     (if t > prev + 1000 then ((t, 1), [DrawFPS n, ConsoleLog_FPS n]) else ((prev, n + 1), []))"
  by (simp add: fpsSample_def)

lemma updateFPS_then_increment:
  "(let (clock, e) = updateFPS now1 now2 prev n in ((fst clock, snd clock + 1), e)) =
     (if now1 > prev + 1000 then ((now2, 1), [DrawFPS n, ConsoleLog_FPS n])
      else ((prev, n + 1), []))"
  by (simp add: updateFPS_def)

lemma pauseCheck_idle:
  assumes "\<not> isKeyPressed (inputManager g) ''Escape''"
  shows "pauseCheck g = (g, [])"
  using assms by (simp add: pauseCheck_def)

lemma gameLoop_clock:
  assumes "GAMERUN g" "\<not> paused g" "\<not> isKeyPressed (inputManager g) ''Escape''"
  shows "GAMERUN (fst (gameLoop g t))" "\<not> paused (fst (gameLoop g t))"
    "inputManager (fst (gameLoop g t)) = inputManager g"
    "lastFPS (fst (gameLoop g t)) = fst (fst (fpsSample t (lastFPS g) (frameCount g)))"
    "frameCount (fst (gameLoop g t)) = snd (fst (fpsSample t (lastFPS g) (frameCount g)))"
    "fpsShown (snd (gameLoop g t)) = fpsShown (snd (fpsSample t (lastFPS g) (frameCount g)))"
  using assms
  by (simp_all add: gameLoop_def pauseCheck_idle Let_def split_beta fpsSample_eq)

lemma gameLoop_part000_clock:
  assumes "GAMERUN g"
  shows "GAMERUN (fst (gameLoop_part000 cols rows g t now1 now2))"
    "lastFPS (fst (gameLoop_part000 cols rows g t now1 now2)) =
       fst (fst (updateFPS now1 now2 (lastFPS g) (frameCount g)))"
    "frameCount (fst (gameLoop_part000 cols rows g t now1 now2)) =
       snd (fst (updateFPS now1 now2 (lastFPS g) (frameCount g))) + 1"
    "fpsShown (snd (gameLoop_part000 cols rows g t now1 now2)) =
       fpsShown (snd (updateFPS now1 now2 (lastFPS g) (frameCount g)))"
  using assms
  by (simp_all add: gameLoop_part000_def Let_def split_beta updateFPS_def)

lemma fpsShown_append: "fpsShown (es @ fs) = fpsShown es @ fpsShown fs"
  by (induction es rule: fpsShown.induct) simp_all

lemma ticks_quiet:
  assumes "GAMERUN g" "\<not> paused g" "\<not> isKeyPressed (inputManager g) ''Escape''"
    and "list_all (\<lambda>t. t \<le> lastFPS g + 900) ts"
  shows "GAMERUN (fst (ticks g ts)) \<and> \<not> paused (fst (ticks g ts)) \<and>
         inputManager (fst (ticks g ts)) = inputManager g \<and>
         lastFPS (fst (ticks g ts)) = lastFPS g \<and>
         frameCount (fst (ticks g ts)) = frameCount g + length ts \<and>
         fpsShown (snd (ticks g ts)) = []"
  using assms
proof (induction ts arbitrary: g)
  case Nil
  then show ?case by simp
next
  case (Cons t ts)
  let ?g1 = "fst (gameLoop g t)"
  have t: "\<not> t > lastFPS g + 1000" using Cons.prems(4) by simp
  have c: "GAMERUN ?g1" "\<not> paused ?g1" "inputManager ?g1 = inputManager g"
    "lastFPS ?g1 = lastFPS g" "frameCount ?g1 = frameCount g + 1"
    "fpsShown (snd (gameLoop g t)) = []"
    using gameLoop_clock[OF Cons.prems(1-3), of t] t by (simp_all add: fpsSample_eq)
  have "list_all (\<lambda>t. t \<le> lastFPS ?g1 + 900) ts"
    using Cons.prems(4) c(4) by simp
  from Cons.IH[OF c(1) c(2) _ this] c Cons.prems(3)
  show ?case by (simp add: split_beta fpsShown_append)
qed

lemma ticks_append:
  "ticks g (ts @ us) =
     (let (g1, e1) = ticks g ts; (g2, e2) = ticks g1 us in (g2, e1 @ e2))"
  by (induction ts arbitrary: g) (simp_all add: split_beta)

lemma ticks_part000_append:
  "ticks_part000 cols rows g (ts @ us) =
     (let (g1, e1) = ticks_part000 cols rows g ts; (g2, e2) = ticks_part000 cols rows g1 us
      in (g2, e1 @ e2))"
proof (induction ts arbitrary: g)
  case Nil
  then show ?case by (simp add: split_beta)
next
  case (Cons a ts)
  then show ?case by (cases a) (simp add: split_beta Let_def)
qed

lemma ticks_part000_quiet:
  assumes "GAMERUN g"
    and "list_all (\<lambda>(t, now1, now2). now1 \<le> lastFPS g + 900) ts"
  shows "GAMERUN (fst (ticks_part000 cols rows g ts)) \<and>
         lastFPS (fst (ticks_part000 cols rows g ts)) = lastFPS g \<and>
         frameCount (fst (ticks_part000 cols rows g ts)) = frameCount g + length ts \<and>
         fpsShown (snd (ticks_part000 cols rows g ts)) = []"
  using assms
proof (induction ts arbitrary: g)
  case Nil
  then show ?case by simp
next
  case (Cons a ts)
  obtain t now1 now2 where a: "a = (t, now1, now2)" by (cases a)
  let ?g1 = "fst (gameLoop_part000 cols rows g t now1 now2)"
  have t: "\<not> now1 > lastFPS g + 1000" using Cons.prems(2) a by simp
  have c: "GAMERUN ?g1" "lastFPS ?g1 = lastFPS g" "frameCount ?g1 = frameCount g + 1"
    "fpsShown (snd (gameLoop_part000 cols rows g t now1 now2)) = []"
    using gameLoop_part000_clock[OF Cons.prems(1), of cols rows t now1 now2] t
    by (simp_all add: updateFPS_def)
  have "list_all (\<lambda>(t, now1, now2). now1 \<le> lastFPS ?g1 + 900) ts"
    using Cons.prems(2) c(2) by simp
  from Cons.IH[OF c(1) this] c a
  show ?case by (simp add: split_beta fpsShown_append)
qed

lemma list_all_replicateI: "P a \<Longrightarrow> list_all P (replicate n a)"
  by (induction n) simp_all

text \<open>
  Claim C7 says that a sampling tick resets the count to 0 and that only the other
  ticks increment it. In the code \<open>frameCount++\<close> follows the sample on every tick: the
  tick at 1005 ms that shows 60 leaves the count at 1.
\<close>

theorem fps_count_after_emit_counterexample:
  "fpsShown (snd (gameLoop ((initGame 0)\<lparr>frameCount := 60\<rparr>) 1005)) = [60] \<and>
   frameCount (fst (gameLoop ((initGame 0)\<lparr>frameCount := 60\<rparr>) 1005)) = 1 \<and>
   frameCount (fst (gameLoop ((initGame 0)\<lparr>frameCount := 60\<rparr>) 1005)) \<noteq> 0"
proof -
  let ?g = "(initGame 0)\<lparr>frameCount := 60\<rparr>"
  have g: "GAMERUN ?g" "\<not> paused ?g" "\<not> isKeyPressed (inputManager ?g) ''Escape''"
    by (simp_all add: initGame_def key_simps)
  have c: "lastFPS ?g = 0" "frameCount ?g = 60" by (simp_all add: initGame_def)
  show ?thesis
    using gameLoop_clock(5,6)[OF g, of 1005] by (simp add: c fpsSample_eq)
qed

text \<open>
  Claim C7, amended. When \<open>now > lastFPS + 1000\<close> the tick emits the current
  \<open>frameCount\<close>, sets \<open>lastFPS\<close> to the time read and restarts the count at 1 (reset to
  0, then incremented for the tick itself); on every other tick it increments the count
  and emits nothing. This is so for the inline block of \<open>src/game.ts\<close> and for
  \<open>updateFPS\<close> followed by the increment of its caller in \<open>unnamed/part_000\<close>. In
  particular, from a count of 0, sixty running ticks within 900 ms of \<open>lastFPS\<close> and
  one more at 1005 ms emit exactly once, and the count emitted is 60.
\<close>

theorem fps_sampler_counts_the_emitting_tick:
  assumes g: "GAMERUN g" "\<not> paused g" "\<not> isKeyPressed (inputManager g) ''Escape''"
      "frameCount g = 0" "length ts = 60" "list_all (\<lambda>t. t \<le> lastFPS g + 900) ts"
    and h: "GAMERUN h" "frameCount h = 0" "length us = 60"
      "list_all (\<lambda>(t, now1, now2). now1 \<le> lastFPS h + 900) us"
  shows "fpsSample t prev n =
           (if t > prev + 1000 then ((t, 1), [DrawFPS n, ConsoleLog_FPS n])
            else ((prev, n + 1), [])) \<and>
         (let (clock, e) = updateFPS now1 now2 prev n in ((fst clock, snd clock + 1), e)) =
           (if now1 > prev + 1000 then ((now2, 1), [DrawFPS n, ConsoleLog_FPS n])
            else ((prev, n + 1), [])) \<and>
         fpsShown (snd (ticks g (ts @ [lastFPS g + 1005]))) = [60] \<and>
         lastFPS (fst (ticks g (ts @ [lastFPS g + 1005]))) = lastFPS g + 1005 \<and>
         frameCount (fst (ticks g (ts @ [lastFPS g + 1005]))) = 1 \<and>
         fpsShown (snd (ticks_part000 cols rows h (us @ [(u, lastFPS h + 1005, now3)]))) = [60] \<and>
         lastFPS (fst (ticks_part000 cols rows h (us @ [(u, lastFPS h + 1005, now3)]))) = now3 \<and>
         frameCount (fst (ticks_part000 cols rows h (us @ [(u, lastFPS h + 1005, now3)]))) = 1"
proof -
  let ?g1 = "fst (ticks g ts)"
  have q: "GAMERUN ?g1" "\<not> paused ?g1" "inputManager ?g1 = inputManager g"
    "lastFPS ?g1 = lastFPS g" "frameCount ?g1 = 60" "fpsShown (snd (ticks g ts)) = []"
    using ticks_quiet[OF g(1-3) g(6)] g(4,5) by simp_all
  have e: "\<not> isKeyPressed (inputManager ?g1) ''Escape''" using q(3) g(3) by simp
  have a: "fpsShown (snd (ticks g (ts @ [lastFPS g + 1005]))) = [60] \<and>
         lastFPS (fst (ticks g (ts @ [lastFPS g + 1005]))) = lastFPS g + 1005 \<and>
         frameCount (fst (ticks g (ts @ [lastFPS g + 1005]))) = 1"
    using gameLoop_clock(4-6)[OF q(1,2) e, of "lastFPS g + 1005"] q(4-6)
    by (simp add: ticks_append split_beta fpsShown_append fpsSample_eq)
  let ?h1 = "fst (ticks_part000 cols rows h us)"
  have r: "GAMERUN ?h1" "lastFPS ?h1 = lastFPS h" "frameCount ?h1 = 60"
    "fpsShown (snd (ticks_part000 cols rows h us)) = []"
    using ticks_part000_quiet[OF h(1) h(4), of cols rows] h(2,3) by simp_all
  have b: "fpsShown (snd (ticks_part000 cols rows h (us @ [(u, lastFPS h + 1005, now3)]))) = [60] \<and>
         lastFPS (fst (ticks_part000 cols rows h (us @ [(u, lastFPS h + 1005, now3)]))) = now3 \<and>
         frameCount (fst (ticks_part000 cols rows h (us @ [(u, lastFPS h + 1005, now3)]))) = 1"
    using gameLoop_part000_clock(2-4)[OF r(1), of cols rows u "lastFPS h + 1005" now3] r(2-4)
    by (simp add: ticks_part000_append split_beta fpsShown_append updateFPS_def)
  show ?thesis
    using a b fpsSample_eq[of t prev n] updateFPS_then_increment[of now1 now2 prev n] by simp
qed

theorem fps_sampler_counts_the_emitting_tick_witness:
  "fpsShown (snd (ticks (initGame 0) (replicate 60 450 @ [1005]))) = [60] \<and>
   frameCount (fst (ticks (initGame 0) (replicate 60 450 @ [1005]))) = 1 \<and>
   fpsShown (snd (ticks_part000 10 10 (initGame_part000 0)
      (replicate 60 (450, 451, 452) @ [(1004, 1005, 1006)]))) = [60]"
proof -
  let ?g = "initGame 0" and ?h = "initGame_part000 0"
  have g: "GAMERUN ?g" "\<not> paused ?g" "\<not> isKeyPressed (inputManager ?g) ''Escape''"
    "frameCount ?g = 0" "length (replicate 60 (450::real)) = 60"
    "list_all (\<lambda>t. t \<le> lastFPS ?g + 900) (replicate 60 450)"
    by (simp_all add: initGame_def key_simps list_all_replicateI)
  have h: "GAMERUN ?h" "frameCount ?h = 0" "length (replicate 60 (450::real, 451::real, 452::real)) = 60"
    "list_all (\<lambda>(t, now1, now2). now1 \<le> lastFPS ?h + 900) (replicate 60 (450, 451, 452))"
    by (simp_all add: initGame_part000_def list_all_replicateI)
  have l: "lastFPS ?g = 0" "lastFPS ?h = 0" by (simp_all add: initGame_def initGame_part000_def)
  show ?thesis
    using fps_sampler_counts_the_emitting_tick[OF g h, of 0 0 0 0 0 10 10 1004 1006] by (simp add: l)
qed

section \<open>The pause key\<close>

lemma gameLoop_escape_held:
  assumes "GAMERUN g" "\<not> lastPausePressed g" "isKeyPressed (inputManager g) ''Escape''"
  shows "paused (fst (gameLoop g t)) = (\<not> paused g)" "GAMERUN (fst (gameLoop g t))"
    "\<not> lastPausePressed (fst (gameLoop g t))"
    "inputManager (fst (gameLoop g t)) = inputManager g"
    "pauseLines (snd (gameLoop g t)) = [\<not> paused g]"
  using assms
  by (simp_all add: gameLoop_def pauseCheck_def Let_def split_beta fpsSample_eq)

lemma pauseLines_append: "pauseLines (es @ fs) = pauseLines es @ pauseLines fs"
  by (induction es rule: pauseLines.induct) simp_all

lemma ticks_escape_held:
  assumes "GAMERUN g" "\<not> lastPausePressed g" "isKeyPressed (inputManager g) ''Escape''"
  shows "length (pauseLines (snd (ticks g ts))) = length ts \<and>
         paused (fst (ticks g ts)) = (if even (length ts) then paused g else \<not> paused g)"
  using assms
proof (induction ts arbitrary: g)
  case Nil
  then show ?case by simp
next
  case (Cons t ts)
  note s = gameLoop_escape_held[OF Cons.prems, of t]
  have "isKeyPressed (inputManager (fst (gameLoop g t))) ''Escape''"
    using s(4) Cons.prems(3) by simp
  from Cons.IH[OF s(2) s(3) this] s(1,5)
  show ?case by (simp add: split_beta pauseLines_append)
qed

text \<open>
  Claim C2 says that Escape held across ticks toggles \<open>paused\<close> once. In
  \<open>src/game.ts\<close> the loop compares \<open>pausePressed\<close> with \<open>lastPausePressed\<close> but
  never stores the former in the latter, so the comparison sees \<open>False\<close> on every tick
  and every tick with Escape held toggles: over the tick of the press and the ten ticks
  after it the console shows eleven toggles, and the game is running again after the
  second tick. A press that lasts one tick, released and repeated, does toggle there and
  back.
\<close>

theorem escape_held_toggles_every_tick:
  "pauseLines (snd (ticks (keydown (initGame 0) ''Escape'')
      [16, 32, 48, 64, 80, 96, 112, 128, 144, 160, 176])) =
     [True, False, True, False, True, False, True, False, True, False, True] \<and>
   paused (fst (ticks (keydown (initGame 0) ''Escape'') [16])) \<and>
   \<not> paused (fst (ticks (keydown (initGame 0) ''Escape'') [16, 32])) \<and>
   \<not> lastPausePressed (fst (ticks (keydown (initGame 0) ''Escape'') [16, 32])) \<and>
   \<not> paused (fst (ticks (keydown (fst (ticks (keyup (fst (ticks
        (keydown (initGame 0) ''Escape'') [16])) ''Escape'') [32])) ''Escape'') [48]))"
  by (simp add: gameLoop_def pauseCheck_def key_simps initGame_def Let_def fpsSample_eq
      accumulateMovement_def move_zero)

end
